theory Spec2Isabelle
  imports Complex_Main "HOL-Library.AList"
begin

section \<open>Python values\<close>

text \<open>
  A Python float is a double: a finite value, which is a rational number, or one of the
  three special values.
\<close>

datatype pyfloat = Finite rat | PosInf | NegInf | NaN

text \<open>The exceptions that the modelled code can meet.\<close>

datatype py_error =
    FileNotFoundError
  | PermissionError
  | UnicodeDecodeError
  | JSONDecodeError
  | AttributeError
  | TypeError
  | ValueError
  | OverflowError
  | IndexError

text \<open>
  The values \<open>json.load\<close> builds, which are also the values a caller can pass for
  \<open>bomb_multiplier\<close>: \<open>None\<close>, booleans, unbounded integers, floats (Python's parser
  accepts the literals \<open>NaN\<close>, \<open>Infinity\<close> and \<open>-Infinity\<close>), strings, lists and
  dictionaries. A dictionary is the list of its items in insertion order.
\<close>

datatype pyval =
    PNone
  | PBool bool
  | PInt int
  | PFloat pyfloat
  | PStr string
  | PList "pyval list"
  | PDict "(string \<times> pyval) list"

text \<open>
  What \<open>open\<close> followed by \<open>json.load\<close> does with a file: it raises, or it returns the
  parsed document.
\<close>

datatype file_read = Raises py_error | Parsed pyval

type_synonym weight_table = "(string \<times> pyfloat) list"

subsection \<open>Float comparison and arithmetic\<close>

text \<open>\<open>a < b\<close> on floats: every comparison with \<open>NaN\<close> is false.\<close>

fun flt :: "pyfloat \<Rightarrow> pyfloat \<Rightarrow> bool" where
  "flt (Finite a) (Finite b) = (a < b)"
| "flt (Finite a) PosInf = True"
| "flt NegInf (Finite b) = True"
| "flt NegInf PosInf = True"
| "flt _ _ = False"

text \<open>\<open>a == b\<close> on floats: \<open>NaN\<close> equals nothing, itself included.\<close>

fun feq :: "pyfloat \<Rightarrow> pyfloat \<Rightarrow> bool" where
  "feq NaN _ = False"
| "feq _ NaN = False"
| "feq a b = (a = b)"

definition fle :: "pyfloat \<Rightarrow> pyfloat \<Rightarrow> bool" where
  "fle a b = (flt a b \<or> feq a b)"

text \<open>
  Arithmetic is that of IEEE 754 doubles in the default rounding mode: the exact result,
  rounded to the nearest double (ties to the even significand), an infinity when it
  rounds beyond the largest double. The sign of zero is not modelled: no comparison of
  the program tells \<open>-0.0\<close> from \<open>0.0\<close>.
\<close>

definition pow2 :: "int \<Rightarrow> rat" where
  "pow2 e = (if 0 \<le> e then 2 ^ nat e else 1 / 2 ^ nat (- e))"

definition round_half_even :: "rat \<Rightarrow> int" where
  "round_half_even q =
     (let f = \<lfloor>q\<rfloor>; d = q - of_int f in
      if d < 1 / 2 then f else if 1 / 2 < d then f + 1 else if even f then f else f + 1)"

text \<open>
  The exponent \<open>e\<close> of the binade of a positive \<open>a\<close> below \<open>2^1024\<close>:
  \<open>2^e \<le> a < 2^(e+1)\<close>, and \<open>-1022\<close> for the subnormal range.
\<close>

function exp_up :: "rat \<Rightarrow> int \<Rightarrow> int" where
  "exp_up a e = (if 2 \<le> a \<and> e < 1023 then exp_up (a / 2) (e + 1) else e)"
  by pat_completeness auto
termination
  by (relation "measure (\<lambda>(a, e). nat (1023 - e))") auto

function exp_down :: "rat \<Rightarrow> int \<Rightarrow> int" where
  "exp_down a e = (if a < 1 \<and> - 1022 < e then exp_down (a * 2) (e - 1) else e)"
  by pat_completeness auto
termination
  by (relation "measure (\<lambda>(a, e). nat (e + 1022))") auto

declare exp_up.simps [simp del] exp_down.simps [simp del]

definition binade :: "rat \<Rightarrow> int" where
  "binade a = (if 1 \<le> a then exp_up a 0 else exp_down a 0)"

text \<open>\<open>2^1024\<close>, the least magnitude that is beyond every double.\<close>

definition double_overflow :: rat where
  "double_overflow = 179769313486231590772930519078902473361797697894230657273430081157732675805500963132708477322407536021120113879871393357658789768814416622492847430639474124377767893424865485276302219601246094119453082952085005768838150682342462881473913110540827237163350510684586298239947245938479716304835356329624224137216"

text \<open>
  Rounding a positive rational: doubles of the binade \<open>e\<close> are the multiples of
  \<open>2^(e - 52)\<close>.
\<close>

definition round_pos :: "rat \<Rightarrow> pyfloat" where
  "round_pos a =
     (if double_overflow \<le> a then PosInf
      else
        (let ulp = pow2 (binade a - 52);
             v = of_int (round_half_even (a / ulp)) * ulp
         in if double_overflow \<le> v then PosInf else Finite v))"

definition round_double :: "rat \<Rightarrow> pyfloat" where
  "round_double r =
     (if r = 0 then Finite 0
      else if 0 < r then round_pos r
      else (case round_pos (- r) of Finite v \<Rightarrow> Finite (- v) | _ \<Rightarrow> NegInf))"

fun fadd :: "pyfloat \<Rightarrow> pyfloat \<Rightarrow> pyfloat" where
  "fadd NaN _ = NaN"
| "fadd _ NaN = NaN"
| "fadd (Finite a) (Finite b) = round_double (a + b)"
| "fadd PosInf NegInf = NaN"
| "fadd NegInf PosInf = NaN"
| "fadd PosInf _ = PosInf"
| "fadd _ PosInf = PosInf"
| "fadd NegInf _ = NegInf"
| "fadd _ NegInf = NegInf"

text \<open>The sign of a float that is not \<open>NaN\<close>: \<open>-1\<close>, \<open>0\<close> or \<open>1\<close>.\<close>

fun fsign :: "pyfloat \<Rightarrow> int" where
  "fsign (Finite a) = (if a < 0 then - 1 else if a = 0 then 0 else 1)"
| "fsign PosInf = 1"
| "fsign NegInf = - 1"
| "fsign NaN = 0"

fun fmul :: "pyfloat \<Rightarrow> pyfloat \<Rightarrow> pyfloat" where
  "fmul NaN _ = NaN"
| "fmul _ NaN = NaN"
| "fmul (Finite a) (Finite b) = round_double (a * b)"
| "fmul a b =
     (if fsign a * fsign b = 0 then NaN
      else if 0 < fsign a * fsign b then PosInf else NegInf)"

definition isfinite :: "pyfloat \<Rightarrow> bool" where
  "isfinite x = (case x of Finite _ \<Rightarrow> True | _ \<Rightarrow> False)"

subsection \<open>Coercions\<close>

text \<open>
  \<open>float(i)\<close> for an integer: the nearest double, and \<open>OverflowError\<close> when \<open>i\<close>
  rounds beyond the largest double.
\<close>

definition float_of_int :: "int \<Rightarrow> py_error + pyfloat" where
  "float_of_int i =
     (case round_double (of_int i) of
        Finite r \<Rightarrow> Inr (Finite r)
      | _ \<Rightarrow> Inl OverflowError)"

text \<open>
  \<open>float(v)\<close>. Parsing a string is the interpreter's business and is a parameter:
  \<open>str_float s = None\<close> when \<open>float(s)\<close> raises \<open>ValueError\<close>.
\<close>

fun py_float :: "(string \<Rightarrow> pyfloat option) \<Rightarrow> pyval \<Rightarrow> py_error + pyfloat" where
  "py_float str_float PNone = Inl TypeError"
| "py_float str_float (PBool b) = Inr (Finite (if b then 1 else 0))"
| "py_float str_float (PInt i) = float_of_int i"
| "py_float str_float (PFloat f) = Inr f"
| "py_float str_float (PStr s) =
     (case str_float s of None \<Rightarrow> Inl ValueError | Some f \<Rightarrow> Inr f)"
| "py_float str_float (PList xs) = Inl TypeError"
| "py_float str_float (PDict d) = Inl TypeError"

text \<open>
  \<open>int(v)\<close>: a float is truncated towards zero, \<open>NaN\<close> raises \<open>ValueError\<close> and an
  infinity \<open>OverflowError\<close>; \<open>str_int s = None\<close> when \<open>int(s)\<close> raises \<open>ValueError\<close>.
\<close>

fun py_int :: "(string \<Rightarrow> int option) \<Rightarrow> pyval \<Rightarrow> py_error + int" where
  "py_int str_int PNone = Inl TypeError"
| "py_int str_int (PBool b) = Inr (if b then 1 else 0)"
| "py_int str_int (PInt i) = Inr i"
| "py_int str_int (PFloat (Finite r)) = Inr (if 0 \<le> r then \<lfloor>r\<rfloor> else \<lceil>r\<rceil>)"
| "py_int str_int (PFloat NaN) = Inl ValueError"
| "py_int str_int (PFloat PosInf) = Inl OverflowError"
| "py_int str_int (PFloat NegInf) = Inl OverflowError"
| "py_int str_int (PStr s) =
     (case str_int s of None \<Rightarrow> Inl ValueError | Some i \<Rightarrow> Inr i)"
| "py_int str_int (PList xs) = Inl TypeError"
| "py_int str_int (PDict d) = Inl TypeError"

text \<open>Truth value of an object, as \<open>x or {}\<close> tests it.\<close>

fun truthy :: "pyval \<Rightarrow> bool" where
  "truthy PNone = False"
| "truthy (PBool b) = b"
| "truthy (PInt i) = (i \<noteq> 0)"
| "truthy (PFloat f) = (\<not> feq f (Finite 0))"
| "truthy (PStr s) = (s \<noteq> [])"
| "truthy (PList xs) = (xs \<noteq> [])"
| "truthy (PDict d) = (d \<noteq> [])"

text \<open>\<open>obj.get(key, default)\<close>: only a dictionary has the method.\<close>

fun py_get :: "pyval \<Rightarrow> string \<Rightarrow> pyval \<Rightarrow> py_error + pyval" where
  "py_get (PDict d) key dflt = Inr (case map_of d key of None \<Rightarrow> dflt | Some v \<Rightarrow> v)"
| "py_get _ key dflt = Inl AttributeError"

section \<open>The weight table\<close>

text \<open>
  The weights of the table are floats; the integers of the default table stand as the
  doubles they equal (they and their sums are small integers, which floats hold exactly).
\<close>

definition DEFAULT_WEIGHTS :: weight_table where
  "DEFAULT_WEIGHTS =
     [(''coin_1'', Finite 25),
      (''coin_stack'', Finite 10),
      (''coin_pile'', Finite 5),
      (''gem_1'', Finite 15),
      (''gem_many'', Finite 5),
      (''bomb_1'', Finite 15),
      (''bomb_atom'', Finite 5),
      (''card_item'', Finite 10),
      (''random_item'', Finite 5)]"

text \<open>\<open>cfg.get('probability', cfg.get('weight', None))\<close>.\<close>

definition raw_weight :: "(string \<times> pyval) list \<Rightarrow> pyval" where
  "raw_weight c =
     (case map_of c ''probability'' of
        Some v \<Rightarrow> v
      | None \<Rightarrow> (case map_of c ''weight'' of Some v \<Rightarrow> v | None \<Rightarrow> PNone))"

text \<open>
  The body of the loop over \<open>symbols.items()\<close>: an entry that is not a dictionary, whose
  value does not coerce to a float (\<open>TypeError\<close>, \<open>ValueError\<close>) or is below zero is
  skipped; any other exception of \<open>float\<close> leaves the function.
\<close>

fun merge_symbols ::
  "(string \<Rightarrow> pyfloat option) \<Rightarrow> (string \<times> pyval) list \<Rightarrow> weight_table \<Rightarrow> py_error + weight_table"
where
  "merge_symbols str_float [] merged = Inr merged"
| "merge_symbols str_float ((symbol, cfg) # rest) merged =
     (case cfg of
        PDict c \<Rightarrow>
          (case py_float str_float (raw_weight c) of
             Inl e \<Rightarrow>
               if e = TypeError \<or> e = ValueError then merge_symbols str_float rest merged
               else Inl e
           | Inr w \<Rightarrow>
               if flt w (Finite 0) then merge_symbols str_float rest merged
               else merge_symbols str_float rest (AList.update symbol w merged))
      | _ \<Rightarrow> merge_symbols str_float rest merged)"

text \<open>
  \<open>sum(float(v) for v in merged.values())\<close>: from \<open>0\<close>, left to right. (From Python
  3.12 on, \<open>sum\<close> also carries a compensation for the rounding errors of the additions;
  for weights that are not negative it changes neither a sum of small integers nor
  whether the result is zero, infinite or \<open>NaN\<close>, which is all that the program tests.)
\<close>

definition weight_sum :: "weight_table \<Rightarrow> pyfloat" where
  "weight_sum t = foldl fadd (Finite 0) (map snd t)"

text \<open>Lines 58 to 72: the table before its total is tested.\<close>

definition merged_weights ::
  "(string \<Rightarrow> pyfloat option) \<Rightarrow> pyval \<Rightarrow> py_error + weight_table"
where
  "merged_weights str_float data =
     (case py_get (if truthy data then data else PDict []) ''symbols'' (PDict []) of
        Inl e \<Rightarrow> Inl e
      | Inr (PDict symbols) \<Rightarrow> merge_symbols str_float symbols DEFAULT_WEIGHTS
      | Inr _ \<Rightarrow> Inl AttributeError)"

definition load_symbol_weights ::
  "(string \<Rightarrow> pyfloat option) \<Rightarrow> file_read \<Rightarrow> py_error + weight_table"
where
  "load_symbol_weights str_float src =
     (case src of
        Raises e \<Rightarrow> Inr DEFAULT_WEIGHTS
      | Parsed data \<Rightarrow>
          (case py_get (if truthy data then data else PDict []) ''symbols'' (PDict []) of
             Inl e \<Rightarrow> Inl e
           | Inr (PDict symbols) \<Rightarrow>
               (case merge_symbols str_float symbols DEFAULT_WEIGHTS of
                  Inl e \<Rightarrow> Inl e
                | Inr merged \<Rightarrow>
                    if fle (weight_sum merged) (Finite 0) then Inr DEFAULT_WEIGHTS
                    else Inr merged)
           | Inr _ \<Rightarrow> Inl AttributeError))"

section \<open>The configured strip length\<close>

text \<open>\<open>load_config\<close> catches \<open>FileNotFoundError\<close> and nothing else.\<close>

definition load_config :: "file_read \<Rightarrow> py_error + pyval" where
  "load_config src =
     (case src of
        Raises e \<Rightarrow> if e = FileNotFoundError then Inr PNone else Inl e
      | Parsed data \<Rightarrow> Inr data)"

definition get_reel_strip_length :: "(string \<Rightarrow> int option) \<Rightarrow> file_read \<Rightarrow> py_error + int" where
  "get_reel_strip_length str_int src =
     (case load_config src of
        Inl e \<Rightarrow> Inl e
      | Inr loaded \<Rightarrow>
          (case py_get (if truthy loaded then loaded else PDict []) ''reel_strip_length'' (PInt 6) of
             Inl e \<Rightarrow> Inl e
           | Inr len \<Rightarrow>
               (case py_int str_int len of
                  Inl e \<Rightarrow> if e = TypeError \<or> e = ValueError then Inr (max 3 6) else Inl e
                | Inr n \<Rightarrow> Inr (max 3 n))))"

section \<open>The random module\<close>

text \<open>
  The outcomes of the generator are inputs of the model: \<open>u i\<close> is what the \<open>i\<close>-th call
  of \<open>random()\<close> inside \<open>random.choices\<close> returns, and \<open>c j\<close> decides the \<open>j\<close>-th call of
  \<open>random.choice\<close>. A property stated for all \<open>u\<close> and \<open>c\<close> holds for every outcome of
  the draws.
\<close>

text \<open>\<open>itertools.accumulate\<close>: the running sums.\<close>

fun accumulate_from :: "pyfloat \<Rightarrow> pyfloat list \<Rightarrow> pyfloat list" where
  "accumulate_from acc [] = []"
| "accumulate_from acc (w # ws) = fadd acc w # accumulate_from (fadd acc w) ws"

fun accumulate :: "pyfloat list \<Rightarrow> pyfloat list" where
  "accumulate [] = []"
| "accumulate (w # ws) = w # accumulate_from w ws"

text \<open>\<open>bisect.bisect(a, x, lo, hi)\<close>, the binary search of the standard library.\<close>

function bisect :: "pyfloat list \<Rightarrow> pyfloat \<Rightarrow> nat \<Rightarrow> nat \<Rightarrow> nat" where
  "bisect a x lo hi =
     (if lo < hi then
        (if flt x (a ! ((lo + hi) div 2)) then bisect a x lo ((lo + hi) div 2)
         else bisect a x ((lo + hi) div 2 + 1) hi)
      else lo)"
  by pat_completeness auto
termination
  by (relation "measure (\<lambda>(a, x, lo, hi). hi - lo)") auto

declare bisect.simps [simp del]

text \<open>
  \<open>random.choices(population, weights=weights, k=k)\<close>: the cumulative weights, the two
  checks of the total, then \<open>k\<close> draws (none when \<open>k\<close> is negative), each
  \<open>population[bisect(cum_weights, random() * total, 0, n - 1)]\<close>.
\<close>

definition random_choices ::
  "string list \<Rightarrow> pyfloat list \<Rightarrow> int \<Rightarrow> (nat \<Rightarrow> rat) \<Rightarrow> py_error + string list"
where
  "random_choices population weights k u =
     (let n = length population; cum_weights = accumulate weights in
      if length cum_weights \<noteq> n then Inl ValueError
      else if cum_weights = [] then Inl IndexError
      else
        (let total = fadd (last cum_weights) (Finite 0) in
         if fle total (Finite 0) then Inl ValueError
         else if \<not> isfinite total then Inl ValueError
         else Inr (map (\<lambda>i. population ! bisect cum_weights (fmul (Finite (u i)) total) 0 (n - 1))
                     [0 ..< nat k])))"

text \<open>
  \<open>random.choice(seq)\<close> is \<open>seq[randbelow(len(seq))]\<close> and raises \<open>IndexError\<close> on an
  empty sequence; \<open>r mod length seq\<close> ranges over exactly the indices of \<open>seq\<close>.
\<close>

definition random_choice :: "nat list \<Rightarrow> nat \<Rightarrow> py_error + nat" where
  "random_choice seq r = (if seq = [] then Inl IndexError else Inr (seq ! (r mod length seq)))"

text \<open>\<open>xs[i] = v\<close> raises \<open>IndexError\<close> out of range.\<close>

definition list_assign :: "'a list \<Rightarrow> nat \<Rightarrow> 'a \<Rightarrow> py_error + 'a list" where
  "list_assign xs i v = (if i < length xs then Inr (xs[i := v]) else Inl IndexError)"

section \<open>Generating a strip\<close>

text \<open>
  Lines 91 to 96: \<open>float(bomb_multiplier)\<close>, with \<open>1.0\<close> for a \<open>TypeError\<close> or a
  \<open>ValueError\<close> and for a value below zero.
\<close>

definition normalize_multiplier :: "(string \<Rightarrow> pyfloat option) \<Rightarrow> pyval \<Rightarrow> py_error + pyfloat" where
  "normalize_multiplier str_float bomb_multiplier =
     (case py_float str_float bomb_multiplier of
        Inl e \<Rightarrow> if e = TypeError \<or> e = ValueError then Inr (Finite 1) else Inl e
      | Inr bm \<Rightarrow> Inr (if flt bm (Finite 0) then Finite 1 else bm))"

text \<open>\<open>if key in weights_map: weights_map[key] = float(weights_map[key]) * bm\<close>.\<close>

definition scale_weight :: "string \<Rightarrow> pyfloat \<Rightarrow> weight_table \<Rightarrow> weight_table" where
  "scale_weight key bm weights_map =
     (case map_of weights_map key of
        None \<Rightarrow> weights_map
      | Some w \<Rightarrow> AList.update key (fmul w bm) weights_map)"

text \<open>Lines 97 to 101.\<close>

definition apply_multiplier :: "pyfloat \<Rightarrow> weight_table \<Rightarrow> weight_table" where
  "apply_multiplier bm weights_map =
     (if \<not> feq bm (Finite 1)
      then scale_weight ''bomb_atom'' bm (scale_weight ''bomb_1'' bm weights_map)
      else weights_map)"

text \<open>
  \<open>[i for i, sym in enumerate(strip) if sym not in bias_symbols]\<close>.
\<close>

definition available_indices :: "string list \<Rightarrow> string list \<Rightarrow> nat list" where
  "available_indices bias_symbols strip =
     filter (\<lambda>i. strip ! i \<notin> set bias_symbols) [0 ..< length strip]"

text \<open>
  The loop of lines 112 to 117 over the bias symbols still to insert; the membership test
  is always against the whole list \<open>bias_symbols\<close>.
\<close>

fun rig_loop ::
  "string list \<Rightarrow> string list \<Rightarrow> string list \<Rightarrow> (nat \<Rightarrow> nat) \<Rightarrow> py_error + string list"
where
  "rig_loop bias_symbols [] strip c = Inr strip"
| "rig_loop bias_symbols (bias_sym # rest) strip c =
     (if available_indices bias_symbols strip \<noteq> [] then
        (case random_choice (available_indices bias_symbols strip) (c 0) of
           Inl e \<Rightarrow> Inl e
         | Inr replace_idx \<Rightarrow>
             (case list_assign strip replace_idx bias_sym of
                Inl e \<Rightarrow> Inl e
              | Inr strip' \<Rightarrow> rig_loop bias_symbols rest strip' (\<lambda>j. c (Suc j))))
      else rig_loop bias_symbols rest strip (\<lambda>j. c (Suc j)))"

text \<open>Lines 110 to 119: the pass runs when a non-empty list is supplied.\<close>

definition rigging ::
  "string list option \<Rightarrow> string list \<Rightarrow> (nat \<Rightarrow> nat) \<Rightarrow> py_error + string list"
where
  "rigging bias_symbols strip c =
     (case bias_symbols of
        None \<Rightarrow> Inr strip
      | Some bs \<Rightarrow> if bs \<noteq> [] \<and> 0 < length bs then rig_loop bs bs strip c else Inr strip)"

definition generate_weighted_strip ::
  "(string \<Rightarrow> pyfloat option) \<Rightarrow> file_read \<Rightarrow> int \<Rightarrow> string list option \<Rightarrow> pyval \<Rightarrow>
   (nat \<Rightarrow> rat) \<Rightarrow> (nat \<Rightarrow> nat) \<Rightarrow> py_error + string list"
where
  "generate_weighted_strip str_float src len bias_symbols bomb_multiplier u c =
     (case load_symbol_weights str_float src of
        Inl e \<Rightarrow> Inl e
      | Inr loaded \<Rightarrow>
          (case normalize_multiplier str_float bomb_multiplier of
             Inl e \<Rightarrow> Inl e
           | Inr bm \<Rightarrow>
               (let weights_map = apply_multiplier bm loaded in
                case random_choices (map fst weights_map) (map snd weights_map) len u of
                  Inl e \<Rightarrow> Inl e
                | Inr strip \<Rightarrow> rigging bias_symbols strip c)))"

section \<open>The same functions on a store\<close>

text \<open>
  To say what a call does to objects that exist before it, the dictionaries live in a
  store: an address is an index, \<open>copy\<close> allocates a new object at the end, an
  assignment \<open>d[k] = v\<close> changes the object at the address of \<open>d\<close>. The module-level
  name \<open>DEFAULT_WEIGHTS\<close> is bound to the address \<open>default_ref\<close>.
\<close>

type_synonym store = "weight_table list"

definition default_ref :: nat where
  "default_ref = 0"

definition dict_copy :: "nat \<Rightarrow> store \<Rightarrow> nat \<times> store" where
  "dict_copy a h = (length h, h @ [h ! a])"

definition dict_setitem :: "nat \<Rightarrow> string \<Rightarrow> pyfloat \<Rightarrow> store \<Rightarrow> store" where
  "dict_setitem a k v h = h[a := AList.update k v (h ! a)]"

text \<open>The merge loop writing into the object at address \<open>merged\<close>.\<close>

fun merge_symbols_st ::
  "(string \<Rightarrow> pyfloat option) \<Rightarrow> (string \<times> pyval) list \<Rightarrow> nat \<Rightarrow> store \<Rightarrow> py_error option \<times> store"
where
  "merge_symbols_st str_float [] merged h = (None, h)"
| "merge_symbols_st str_float ((symbol, cfg) # rest) merged h =
     (case cfg of
        PDict c \<Rightarrow>
          (case py_float str_float (raw_weight c) of
             Inl e \<Rightarrow>
               if e = TypeError \<or> e = ValueError then merge_symbols_st str_float rest merged h
               else (Some e, h)
           | Inr w \<Rightarrow>
               if flt w (Finite 0) then merge_symbols_st str_float rest merged h
               else merge_symbols_st str_float rest merged (dict_setitem merged symbol w h))
      | _ \<Rightarrow> merge_symbols_st str_float rest merged h)"

definition load_symbol_weights_st ::
  "(string \<Rightarrow> pyfloat option) \<Rightarrow> file_read \<Rightarrow> store \<Rightarrow> (py_error + nat) \<times> store"
where
  "load_symbol_weights_st str_float src h =
     (case src of
        Raises e \<Rightarrow> (Inr (fst (dict_copy default_ref h)), snd (dict_copy default_ref h))
      | Parsed data \<Rightarrow>
          (case py_get (if truthy data then data else PDict []) ''symbols'' (PDict []) of
             Inl e \<Rightarrow> (Inl e, h)
           | Inr symbols \<Rightarrow>
               (let merged = fst (dict_copy default_ref h); h1 = snd (dict_copy default_ref h) in
                case symbols of
                  PDict items \<Rightarrow>
                    (case merge_symbols_st str_float items merged h1 of
                       (Some e, h2) \<Rightarrow> (Inl e, h2)
                     | (None, h2) \<Rightarrow>
                         if fle (weight_sum (h2 ! merged)) (Finite 0)
                         then (Inr (fst (dict_copy default_ref h2)), snd (dict_copy default_ref h2))
                         else (Inr merged, h2))
                | _ \<Rightarrow> (Inl AttributeError, h1))))"

definition scale_weight_st :: "string \<Rightarrow> pyfloat \<Rightarrow> nat \<Rightarrow> store \<Rightarrow> store" where
  "scale_weight_st key bm weights_map h =
     (case map_of (h ! weights_map) key of
        None \<Rightarrow> h
      | Some w \<Rightarrow> dict_setitem weights_map key (fmul w bm) h)"

definition apply_multiplier_st :: "pyfloat \<Rightarrow> nat \<Rightarrow> store \<Rightarrow> store" where
  "apply_multiplier_st bm weights_map h =
     (if \<not> feq bm (Finite 1)
      then scale_weight_st ''bomb_atom'' bm weights_map (scale_weight_st ''bomb_1'' bm weights_map h)
      else h)"

text \<open>
  \<open>population\<close>, \<open>weights\<close> and \<open>strip\<close> are new lists that nothing else refers to, so
  the sampling and the rigging pass are the functions above.
\<close>

definition generate_weighted_strip_st ::
  "(string \<Rightarrow> pyfloat option) \<Rightarrow> file_read \<Rightarrow> int \<Rightarrow> string list option \<Rightarrow> pyval \<Rightarrow>
   (nat \<Rightarrow> rat) \<Rightarrow> (nat \<Rightarrow> nat) \<Rightarrow> store \<Rightarrow> (py_error + string list) \<times> store"
where
  "generate_weighted_strip_st str_float src len bias_symbols bomb_multiplier u c h =
     (case load_symbol_weights_st str_float src h of
        (Inl e, h1) \<Rightarrow> (Inl e, h1)
      | (Inr weights_map, h1) \<Rightarrow>
          (case normalize_multiplier str_float bomb_multiplier of
             Inl e \<Rightarrow> (Inl e, h1)
           | Inr bm \<Rightarrow>
               (let h2 = apply_multiplier_st bm weights_map h1 in
                (case random_choices (map fst (h2 ! weights_map)) (map snd (h2 ! weights_map)) len u of
                   Inl e \<Rightarrow> Inl e
                 | Inr strip \<Rightarrow> rigging bias_symbols strip c,
                 h2))))"

section \<open>Predicates of the properties\<close>

text \<open>Every weight is a number that is not negative, and the total is positive.\<close>

definition weights_invariant :: "weight_table \<Rightarrow> bool" where
  "weights_invariant t =
     (list_all (\<lambda>w. fle (Finite 0) w) (map snd t) \<and> flt (Finite 0) (weight_sum t))"

text \<open>An entry of \<open>symbols\<close> that the merge accepts with weight zero.\<close>

definition zero_entry :: "(string \<Rightarrow> pyfloat option) \<Rightarrow> pyval \<Rightarrow> bool" where
  "zero_entry str_float cfg =
     (case cfg of PDict c \<Rightarrow> py_float str_float (raw_weight c) = Inr (Finite 0) | _ \<Rightarrow> False)"

section \<open>Float arithmetic\<close>

lemma double_overflow_eq: "double_overflow = 2 ^ 1024"
  by (simp add: double_overflow_def)

lemma pow2_pos: "0 < pow2 e"
  by (simp add: pow2_def)

lemma round_half_even_nonneg: "0 \<le> q \<Longrightarrow> 0 \<le> round_half_even q"
  by (auto simp: round_half_even_def Let_def)

lemma round_pos_nonneg: "0 < a \<Longrightarrow> fle (Finite 0) (round_pos a)"
proof -
  assume a: "0 < a"
  let ?ulp = "pow2 (binade a - 52)"
  have "0 \<le> a / ?ulp" using a pow2_pos [of "binade a - 52"] by simp
  then have "0 \<le> round_half_even (a / ?ulp)" by (rule round_half_even_nonneg)
  then have "0 \<le> of_int (round_half_even (a / ?ulp)) * ?ulp"
    using pow2_pos [of "binade a - 52"] by simp
  then show ?thesis
    by (auto simp: round_pos_def Let_def fle_def)
qed

lemma round_double_zero [simp]: "round_double 0 = Finite 0"
  by (simp add: round_double_def)

lemma round_double_nonneg: "0 \<le> r \<Longrightarrow> fle (Finite 0) (round_double r)"
  using round_pos_nonneg [of r] by (auto simp: round_double_def fle_def)

lemma fle_zero_iff:
  "fle (Finite 0) w \<longleftrightarrow> \<not> flt w (Finite 0) \<and> w \<noteq> NaN"
  by (cases w) (auto simp: fle_def)

lemma fle_zero_fadd:
  "fle (Finite 0) a \<Longrightarrow> fle (Finite 0) b \<Longrightarrow> fle (Finite 0) (fadd a b)"
proof (cases a; cases b)
  fix x y assume "fle (Finite 0) a" "fle (Finite 0) b" "a = Finite x" "b = Finite y"
  then have "0 \<le> x + y" by (auto simp: fle_def)
  then show ?thesis using \<open>a = Finite x\<close> \<open>b = Finite y\<close> by (simp add: round_double_nonneg)
qed (auto simp: fle_def)

lemma fle_zero_foldl:
  "fle (Finite 0) acc \<Longrightarrow> \<forall>w \<in> set ws. fle (Finite 0) w \<Longrightarrow> fle (Finite 0) (foldl fadd acc ws)"
  by (induction ws arbitrary: acc) (simp_all add: fle_zero_fadd)

lemma flt_zero_if: "fle (Finite 0) s \<Longrightarrow> \<not> fle s (Finite 0) \<Longrightarrow> flt (Finite 0) s"
  by (cases s) (auto simp: fle_def)

lemma flt_zero_not_fle: "flt (Finite 0) s \<Longrightarrow> \<not> fle s (Finite 0)"
  by (cases s) (auto simp: fle_def)

text \<open>The running sums of the default table are small integers.\<close>

lemma round_double_small:
  "round_double 5 = Finite 5" "round_double 10 = Finite 10" "round_double 15 = Finite 15"
  "round_double 20 = Finite 20" "round_double 25 = Finite 25" "round_double 30 = Finite 30"
  "round_double 35 = Finite 35"
  "round_double 40 = Finite 40" "round_double 55 = Finite 55" "round_double 60 = Finite 60"
  "round_double 75 = Finite 75" "round_double 80 = Finite 80" "round_double 90 = Finite 90"
  "round_double 95 = Finite 95"
  by code_simp+

lemma weights_invariant_DEFAULT_WEIGHTS: "weights_invariant DEFAULT_WEIGHTS"
  by (simp add: weights_invariant_def DEFAULT_WEIGHTS_def weight_sum_def fle_def round_double_small)

lemma weight_sum_DEFAULT_WEIGHTS: "weight_sum DEFAULT_WEIGHTS = Finite 95"
  by (simp add: DEFAULT_WEIGHTS_def weight_sum_def round_double_small)

lemma round_double_overflow: "double_overflow \<le> r \<Longrightarrow> round_double r = PosInf"
proof -
  assume "double_overflow \<le> r"
  moreover have "0 < double_overflow" by (simp add: double_overflow_def)
  ultimately show ?thesis by (simp add: round_double_def round_pos_def)
qed

section \<open>The rigging pass\<close>

lemma available_indices_sound:
  "i \<in> set (available_indices B s) \<Longrightarrow> i < length s \<and> s ! i \<notin> set B"
  by (simp add: available_indices_def)

lemma random_choice_member:
  "random_choice seq r = Inr i \<Longrightarrow> i \<in> set seq"
  by (auto simp: random_choice_def split: if_splits)

lemma random_choice_total:
  "seq \<noteq> [] \<Longrightarrow> \<exists>i. random_choice seq r = Inr i \<and> i \<in> set seq"
  by (simp add: random_choice_def)

text \<open>One iteration either skips, or overwrites a position that holds no bias symbol.\<close>

lemma rig_loop_cases:
  obtains (skip) "available_indices B s = []"
      "rig_loop B (b # rest) s c = rig_loop B rest s (\<lambda>j. c (Suc j))"
  | (insert) i where "i < length s" "s ! i \<notin> set B"
      "random_choice (available_indices B s) (c 0) = Inr i"
      "rig_loop B (b # rest) s c = rig_loop B rest (s[i := b]) (\<lambda>j. c (Suc j))"
proof (cases "available_indices B s = []")
  case True
  then show ?thesis using skip by simp
next
  case False
  then obtain i where i: "random_choice (available_indices B s) (c 0) = Inr i"
    "i \<in> set (available_indices B s)"
    using random_choice_total by blast
  then have "i < length s" "s ! i \<notin> set B"
    using available_indices_sound by blast+
  then show ?thesis using insert [of i] i False by (simp add: list_assign_def)
qed

lemma rig_loop_returns:
  "\<exists>s'. rig_loop B todo s c = Inr s' \<and> length s' = length s"
proof (induction todo arbitrary: s c)
  case Nil
  then show ?case by simp
next
  case (Cons b rest)
  show ?case
  proof (cases rule: rig_loop_cases [of B s b rest c])
    case skip
    then show ?thesis using Cons.IH [of s "\<lambda>j. c (Suc j)"] by simp
  next
    case (insert i)
    then show ?thesis using Cons.IH [of "s[i := b]" "\<lambda>j. c (Suc j)"] by simp
  qed
qed

lemma rig_loop_keeps_bias:
  "rig_loop B todo s c = Inr s' \<Longrightarrow> i < length s \<Longrightarrow> s ! i \<in> set B \<Longrightarrow> s' ! i = s ! i"
proof (induction todo arbitrary: s c)
  case Nil
  then show ?case by simp
next
  case (Cons b rest)
  show ?case
  proof (cases rule: rig_loop_cases [of B s b rest c])
    case skip
    then show ?thesis using Cons by simp
  next
    case (insert k)
    with Cons.prems have ne: "k \<noteq> i" by auto
    have "rig_loop B rest (s[k := b]) (\<lambda>j. c (Suc j)) = Inr s'"
      using insert Cons.prems by simp
    moreover have "i < length (s[k := b])" "(s[k := b]) ! i \<in> set B"
      using Cons.prems ne by simp_all
    ultimately have "s' ! i = (s[k := b]) ! i" by (rule Cons.IH)
    then show ?thesis using ne by simp
  qed
qed

text \<open>The pass over \<open>pre @ post\<close> is the pass over \<open>pre\<close> followed by the pass over \<open>post\<close>.\<close>

lemma rig_loop_append:
  "rig_loop B (pre @ post) s c =
     (case rig_loop B pre s c of
        Inl e \<Rightarrow> Inl e
      | Inr mid \<Rightarrow> rig_loop B post mid (\<lambda>j. c (j + length pre)))"
  by (induction pre arbitrary: s c) (simp_all split: sum.splits)

lemma rig_loop_inserts:
  assumes "b \<in> set B" and "available_indices B s \<noteq> []"
    and "rig_loop B (b # rest) s c = Inr s'"
  shows "b \<in> set s'"
proof (cases rule: rig_loop_cases [of B s b rest c])
  case skip
  then show ?thesis using assms by simp
next
  case (insert i)
  have run: "rig_loop B rest (s[i := b]) (\<lambda>j. c (Suc j)) = Inr s'"
    using insert assms by simp
  have "s' ! i = (s[i := b]) ! i"
    using run insert(1) assms(1) by (intro rig_loop_keeps_bias [OF run]) simp_all
  moreover have "length s' = length s"
    using rig_loop_returns [of B rest "s[i := b]" "\<lambda>j. c (Suc j)"] run by simp
  ultimately show ?thesis using insert(1) by (metis nth_list_update_eq nth_mem)
qed

lemma rigging_returns:
  "\<exists>s'. rigging bias s c = Inr s' \<and> length s' = length s"
  using rig_loop_returns by (simp add: rigging_def split: option.splits)

lemma length_random_choices:
  "random_choices population weights k u = Inr strip \<Longrightarrow> length strip = nat k"
  by (auto simp: random_choices_def Let_def split: if_splits)

text \<open>
  When the strip has at least as many eligible positions as there are symbols still to
  insert, each of them is in the strip at the end.
\<close>

lemma length_available_indices:
  "length (available_indices B s) = length (filter (\<lambda>x. x \<notin> set B) s)"
proof -
  have "map ((!) s) (available_indices B s) = filter (\<lambda>x. x \<notin> set B) (map ((!) s) [0 ..< length s])"
    by (simp add: available_indices_def filter_map comp_def)
  then have "length (map ((!) s) (available_indices B s)) = length (filter (\<lambda>x. x \<notin> set B) s)"
    by (simp add: map_nth)
  then show ?thesis by simp
qed

lemma length_available_indices_update:
  assumes "i < length s" and "s ! i \<notin> set B" and "b \<in> set B"
  shows "Suc (length (available_indices B (s[i := b]))) = length (available_indices B s)"
proof -
  have s: "s = take i s @ s ! i # drop (Suc i) s"
    using assms(1) by (simp add: id_take_nth_drop)
  have u: "s[i := b] = take i s @ b # drop (Suc i) s"
    using assms(1) by (simp add: upd_conv_take_nth_drop)
  have "length (filter (\<lambda>x. x \<notin> set B) s)
          = length (filter (\<lambda>x. x \<notin> set B) (take i s @ s ! i # drop (Suc i) s))"
    using s by simp
  then show ?thesis unfolding length_available_indices u using assms(2,3) by simp
qed

lemma rig_loop_inserts_all:
  assumes "set todo \<subseteq> set B" and "length todo \<le> length (available_indices B s)"
    and "rig_loop B todo s c = Inr s'"
  shows "set todo \<subseteq> set s'"
  using assms
proof (induction todo arbitrary: s c)
  case Nil
  then show ?case by simp
next
  case (Cons b rest)
  have b: "b \<in> set B" and rest: "set rest \<subseteq> set B" using Cons.prems(1) by simp_all
  have ne: "available_indices B s \<noteq> []" using Cons.prems(2) by auto
  have "b \<in> set s'" using b ne Cons.prems(3) by (rule rig_loop_inserts)
  moreover have "set rest \<subseteq> set s'"
  proof (cases rule: rig_loop_cases [of B s b rest c])
    case skip
    then show ?thesis using ne by simp
  next
    case (insert i)
    have "Suc (length (available_indices B (s[i := b]))) = length (available_indices B s)"
      using insert(1,2) b by (rule length_available_indices_update)
    then have "length rest \<le> length (available_indices B (s[i := b]))"
      using Cons.prems(2) by simp
    moreover have "rig_loop B rest (s[i := b]) (\<lambda>j. c (Suc j)) = Inr s'"
      using insert(4) Cons.prems(3) by simp
    ultimately show ?thesis using rest Cons.IH by blast
  qed
  ultimately show ?case by simp
qed

text \<open>
  C1. Claimed: when the bias list has at most \<open>L\<close> pairwise distinct entries, the
  returned strip contains each of them, whatever the draws. That holds when the drawn
  strip has enough eligible positions (lemma \<open>rig_loop_inserts_all\<close>), and the code
  does otherwise when the draws fill the strip with bias symbols: with the default table,
  length 3, bias list \<open>gem_1, bomb_1\<close> and three draws that all give \<open>gem_1\<close>, no
  position is eligible, both insertions are skipped and the strip has no \<open>bomb_1\<close>.
\<close>

theorem bias_symbol_missing_from_strip:
  "generate_weighted_strip (\<lambda>s. None) (Raises FileNotFoundError) 3
     (Some [''gem_1'', ''bomb_1'']) (PFloat (Finite 1)) (\<lambda>i. 1 / 2) (\<lambda>j. 0)
     = Inr [''gem_1'', ''gem_1'', ''gem_1'']
   \<and> int (length [''gem_1'', ''bomb_1'']) \<le> 3
   \<and> distinct [''gem_1'', ''bomb_1'']
   \<and> ''bomb_1'' \<notin> set [''gem_1'', ''gem_1'', ''gem_1'']"
  by code_simp

text \<open>
  C7. For every bias list, longer than the strip or not, the rigging pass returns a strip
  (it raises nothing: \<open>random.choice\<close> is never called on an empty list and no assignment
  is out of range) of the length it started with; an insertion with no eligible position
  is skipped, the pass going on with the strip as it is; and a call of
  \<open>generate_weighted_strip\<close> with a bias list raises only what the same call without one
  raises, and otherwise returns \<open>len\<close> entries.
\<close>

theorem rigging_pass_is_safe:
  "(\<exists>s'. rig_loop B todo s c = Inr s' \<and> length s' = length s)
   \<and> (available_indices B s = [] \<longrightarrow>
        rig_loop B (b # todo) s c = rig_loop B todo s (\<lambda>j. c (Suc j)))
   \<and> (case generate_weighted_strip str_float src len None bomb_multiplier u c0 of
        Inl e \<Rightarrow> generate_weighted_strip str_float src len bias bomb_multiplier u c = Inl e
      | Inr base \<Rightarrow>
          (\<exists>s'. generate_weighted_strip str_float src len bias bomb_multiplier u c = Inr s'
             \<and> length s' = nat len))"
proof (intro conjI)
  show "\<exists>s'. rig_loop B todo s c = Inr s' \<and> length s' = length s"
    by (rule rig_loop_returns)
  show "available_indices B s = [] \<longrightarrow>
        rig_loop B (b # todo) s c = rig_loop B todo s (\<lambda>j. c (Suc j))"
    by simp
  show "case generate_weighted_strip str_float src len None bomb_multiplier u c0 of
        Inl e \<Rightarrow> generate_weighted_strip str_float src len bias bomb_multiplier u c = Inl e
      | Inr base \<Rightarrow>
          (\<exists>s'. generate_weighted_strip str_float src len bias bomb_multiplier u c = Inr s'
             \<and> length s' = nat len)"
    using rigging_returns length_random_choices
    by (fastforce simp: generate_weighted_strip_def Let_def rigging_def split: sum.splits)
qed

theorem rigging_pass_is_safe_witness:
  "available_indices [''a'', ''b''] [''b'', ''a''] = []
   \<and> rig_loop [''a'', ''b''] [''a'', ''b''] [''b'', ''a''] (\<lambda>j. j)
       = rig_loop [''a'', ''b''] [''b''] [''b'', ''a''] (\<lambda>j. Suc j)
   \<and> (\<exists>s'. rig_loop [''a'', ''b'', ''c''] [''a'', ''b'', ''c''] [''x'', ''y''] (\<lambda>j. j) = Inr s'
         \<and> length s' = length [''x'', ''y''])"
proof -
  have full: "available_indices [''a'', ''b''] [''b'', ''a''] = []"
    by (simp add: available_indices_def)
  have "available_indices [''a'', ''b''] [''b'', ''a''] = [] \<longrightarrow>
        rig_loop [''a'', ''b''] [''a'', ''b''] [''b'', ''a''] (\<lambda>j. j)
          = rig_loop [''a'', ''b''] [''b''] [''b'', ''a''] (\<lambda>j. Suc j)"
    using rigging_pass_is_safe
      [where B = "[''a'', ''b'']" and todo = "[''b'']" and s = "[''b'', ''a'']"
         and c = "\<lambda>j. j" and b = "''a''"]
    by blast
  moreover have "\<exists>s'. rig_loop [''a'', ''b'', ''c''] [''a'', ''b'', ''c''] [''x'', ''y''] (\<lambda>j. j) = Inr s'
         \<and> length s' = length [''x'', ''y'']"
    using rigging_pass_is_safe
      [where B = "[''a'', ''b'', ''c'']" and todo = "[''a'', ''b'', ''c'']"
         and s = "[''x'', ''y'']" and c = "\<lambda>j. j"]
    by blast
  ultimately show ?thesis using full by blast
qed

text \<open>
  C8. The position that an iteration selects holds no symbol of the bias list; and at
  any point of the pass (after the prefix \<open>pre\<close> of the list), every position that holds
  a symbol of the bias list, drawn or inserted, holds the same symbol when the pass ends.
\<close>

theorem rigging_protects_bias_symbols:
  "(random_choice (available_indices B s) r = Inr idx \<longrightarrow> idx < length s \<and> s ! idx \<notin> set B)
   \<and> (rig_loop B (pre @ post) s c = Inr fin \<longrightarrow>
        (\<exists>mid. rig_loop B pre s c = Inr mid
           \<and> (\<forall>i < length mid. mid ! i \<in> set B \<longrightarrow> fin ! i = mid ! i)))"
proof (rule conjI)
  show "random_choice (available_indices B s) r = Inr idx \<longrightarrow> idx < length s \<and> s ! idx \<notin> set B"
    using random_choice_member available_indices_sound by blast
next
  show "rig_loop B (pre @ post) s c = Inr fin \<longrightarrow>
        (\<exists>mid. rig_loop B pre s c = Inr mid
           \<and> (\<forall>i < length mid. mid ! i \<in> set B \<longrightarrow> fin ! i = mid ! i))"
  proof
    assume run: "rig_loop B (pre @ post) s c = Inr fin"
    obtain mid where mid: "rig_loop B pre s c = Inr mid"
      using rig_loop_returns by blast
    then have "rig_loop B post mid (\<lambda>j. c (j + length pre)) = Inr fin"
      using run by (simp add: rig_loop_append)
    then have "\<forall>i < length mid. mid ! i \<in> set B \<longrightarrow> fin ! i = mid ! i"
      using rig_loop_keeps_bias by blast
    then show "\<exists>mid. rig_loop B pre s c = Inr mid
           \<and> (\<forall>i < length mid. mid ! i \<in> set B \<longrightarrow> fin ! i = mid ! i)"
      using mid by blast
  qed
qed

theorem rigging_protects_bias_symbols_witness:
  "random_choice (available_indices [''g'', ''b''] [''g'', ''x'', ''y'']) 0 = Inr 1
   \<and> (1::nat) < length [''g'', ''x'', ''y''] \<and> [''g'', ''x'', ''y''] ! 1 \<notin> set [''g'', ''b'']
   \<and> rig_loop [''g'', ''b''] ([''g''] @ [''b'']) [''g'', ''x'', ''y''] (\<lambda>j. 0) = Inr [''g'', ''g'', ''b'']
   \<and> (\<exists>mid. rig_loop [''g'', ''b''] [''g''] [''g'', ''x'', ''y''] (\<lambda>j. 0) = Inr mid
        \<and> (\<forall>i < length mid. mid ! i \<in> set [''g'', ''b''] \<longrightarrow> [''g'', ''g'', ''b''] ! i = mid ! i))"
proof -
  have pick: "random_choice (available_indices [''g'', ''b''] [''g'', ''x'', ''y'']) 0 = Inr 1"
    by code_simp
  have run: "rig_loop [''g'', ''b''] ([''g''] @ [''b'']) [''g'', ''x'', ''y''] (\<lambda>j. 0)
               = Inr [''g'', ''g'', ''b'']"
    by code_simp
  note inst = rigging_protects_bias_symbols
      [where B = "[''g'', ''b'']" and s = "[''g'', ''x'', ''y'']" and r = 0 and idx = 1
         and pre = "[''g'']" and post = "[''b'']" and c = "\<lambda>j. 0" and fin = "[''g'', ''g'', ''b'']"]
  from inst pick have "(1::nat) < length [''g'', ''x'', ''y''] \<and> [''g'', ''x'', ''y''] ! 1 \<notin> set [''g'', ''b'']"
    by blast
  moreover from inst run
  have "\<exists>mid. rig_loop [''g'', ''b''] [''g''] [''g'', ''x'', ''y''] (\<lambda>j. 0) = Inr mid
        \<and> (\<forall>i < length mid. mid ! i \<in> set [''g'', ''b''] \<longrightarrow> [''g'', ''g'', ''b''] ! i = mid ! i)"
    by blast
  ultimately show ?thesis using pick run by blast
qed

lemma generate_weighted_strip_Inr:
  "generate_weighted_strip sf src L bias bmv u c = Inr fin \<longleftrightarrow>
     (\<exists>loaded bm base.
        load_symbol_weights sf src = Inr loaded \<and> normalize_multiplier sf bmv = Inr bm \<and>
        random_choices (map fst (apply_multiplier bm loaded)) (map snd (apply_multiplier bm loaded)) L u
          = Inr base \<and>
        rigging bias base c = Inr fin)"
  by (auto simp: generate_weighted_strip_def Let_def split: sum.splits)

text \<open>
  C10. When the pass reaches an entry \<open>b\<close> of the bias list (after the entries \<open>pre\<close>)
  and the strip at that moment has an eligible position, \<open>b\<close> is in the returned strip.
  Nothing asks that \<open>b\<close> be a key of the weight table, which the pass never consults: the
  returned strip can hold a symbol that the table does not have.
\<close>

theorem bias_symbol_outside_table_is_inserted:
  assumes "generate_weighted_strip sf src L (Some (pre @ b # rest)) bmv u c = Inr fin"
  shows "\<exists>base mid.
           generate_weighted_strip sf src L None bmv u c = Inr base \<and>
           rig_loop (pre @ b # rest) pre base c = Inr mid \<and>
           (available_indices (pre @ b # rest) mid \<noteq> [] \<longrightarrow> b \<in> set fin)"
proof -
  let ?B = "pre @ b # rest"
  from assms obtain loaded bm base where
    ld: "load_symbol_weights sf src = Inr loaded" and
    nm: "normalize_multiplier sf bmv = Inr bm" and
    rc: "random_choices (map fst (apply_multiplier bm loaded)) (map snd (apply_multiplier bm loaded)) L u
          = Inr base" and
    rg: "rigging (Some ?B) base c = Inr fin"
    unfolding generate_weighted_strip_Inr by blast
  have none: "generate_weighted_strip sf src L None bmv u c = Inr base"
    unfolding generate_weighted_strip_Inr using ld nm rc by (simp add: rigging_def)
  from rg have run: "rig_loop ?B ?B base c = Inr fin"
    by (simp add: rigging_def)
  obtain mid where mid: "rig_loop ?B pre base c = Inr mid"
    using rig_loop_returns by blast
  with run have post: "rig_loop ?B (b # rest) mid (\<lambda>j. c (j + length pre)) = Inr fin"
    by (simp add: rig_loop_append)
  have "available_indices ?B mid \<noteq> [] \<longrightarrow> b \<in> set fin"
    using rig_loop_inserts [OF _ _ post] by simp
  with none mid show ?thesis by blast
qed

theorem bias_symbol_outside_table_is_inserted_witness:
  "generate_weighted_strip (\<lambda>s. None) (Raises FileNotFoundError) 6 (Some ([] @ ''zzz'' # []))
       (PFloat (Finite 1)) (\<lambda>i. 1 / 2) (\<lambda>j. 0)
     = Inr [''zzz'', ''gem_1'', ''gem_1'', ''gem_1'', ''gem_1'', ''gem_1'']
   \<and> ''zzz'' \<notin> set (map fst DEFAULT_WEIGHTS)
   \<and> ''zzz'' \<in> set [''zzz'', ''gem_1'', ''gem_1'', ''gem_1'', ''gem_1'', ''gem_1'']"
proof -
  let ?base = "[''gem_1'', ''gem_1'', ''gem_1'', ''gem_1'', ''gem_1'', ''gem_1'']"
  let ?fin = "[''zzz'', ''gem_1'', ''gem_1'', ''gem_1'', ''gem_1'', ''gem_1'']"
  have g: "generate_weighted_strip (\<lambda>s. None) (Raises FileNotFoundError) 6 (Some ([] @ ''zzz'' # []))
       (PFloat (Finite 1)) (\<lambda>i. 1 / 2) (\<lambda>j. 0) = Inr ?fin"
    by code_simp
  have gn: "generate_weighted_strip (\<lambda>s. None) (Raises FileNotFoundError) 6 None
       (PFloat (Finite 1)) (\<lambda>i. 1 / 2) (\<lambda>j. 0) = Inr ?base"
    by code_simp
  have av: "available_indices ([] @ ''zzz'' # []) ?base \<noteq> []"
    by code_simp
  have nk: "''zzz'' \<notin> set (map fst DEFAULT_WEIGHTS)"
    by code_simp
  from bias_symbol_outside_table_is_inserted [OF g] obtain base mid where
    "generate_weighted_strip (\<lambda>s. None) (Raises FileNotFoundError) 6 None
       (PFloat (Finite 1)) (\<lambda>i. 1 / 2) (\<lambda>j. 0) = Inr base"
    "rig_loop ([] @ ''zzz'' # []) [] base (\<lambda>j. 0) = Inr mid"
    "available_indices ([] @ ''zzz'' # []) mid \<noteq> [] \<longrightarrow> ''zzz'' \<in> set ?fin"
    by blast
  with gn av have "''zzz'' \<in> set ?fin" by simp
  with g nk show ?thesis by blast
qed

section \<open>Reading the strip length\<close>

lemma get_reel_strip_length_absent:
  "get_reel_strip_length str_int (Raises FileNotFoundError) = Inr 6"
  by (simp add: get_reel_strip_length_def load_config_def)

lemma get_reel_strip_length_missing:
  "map_of d ''reel_strip_length'' = None \<Longrightarrow> get_reel_strip_length str_int (Parsed (PDict d)) = Inr 6"
  by (simp add: get_reel_strip_length_def load_config_def)

lemma get_reel_strip_length_non_numeric:
  "map_of d ''reel_strip_length'' = Some v \<Longrightarrow> py_int str_int v = Inl TypeError \<or> py_int str_int v = Inl ValueError
     \<Longrightarrow> get_reel_strip_length str_int (Parsed (PDict d)) = Inr 6"
  by (auto simp add: get_reel_strip_length_def load_config_def)

lemma get_reel_strip_length_numeric:
  "map_of d ''reel_strip_length'' = Some v \<Longrightarrow> py_int str_int v = Inr n
     \<Longrightarrow> get_reel_strip_length str_int (Parsed (PDict d)) = Inr (max 3 n)"
  by (auto simp add: get_reel_strip_length_def load_config_def)

text \<open>
  A document that is not a dictionary (a non-empty list, say) has no \<open>get\<close>, and
  \<open>int\<close> of an infinite float raises \<open>OverflowError\<close>, which is not caught.
\<close>

lemma get_reel_strip_length_not_a_dict:
  "get_reel_strip_length str_int (Parsed (PList [PInt 1])) = Inl AttributeError"
  by (simp add: get_reel_strip_length_def load_config_def)

lemma get_reel_strip_length_infinite:
  "get_reel_strip_length str_int (Parsed (PDict [(''reel_strip_length'', PFloat PosInf)]))
     = Inl OverflowError"
  by (simp add: get_reel_strip_length_def load_config_def)

text \<open>
  C3. Claimed: \<open>get_reel_strip_length\<close> returns 6 for an absent, unreadable or malformed
  configuration and for a missing or non-numeric entry, and \<open>max(3, int(v))\<close> for a
  numeric one. The lemmas above give the absent file, the missing entry, the entry that
  \<open>int\<close> rejects and the numeric entry. For a file that is not parseable JSON the code
  does otherwise: \<open>load_config\<close> catches \<open>FileNotFoundError\<close> only, so the decoder's
  exception leaves \<open>get_reel_strip_length\<close>.
\<close>

theorem malformed_config_raises:
  "get_reel_strip_length str_int (Raises JSONDecodeError) = Inl JSONDecodeError"
  by (simp add: get_reel_strip_length_def load_config_def)

section \<open>Loading the weights\<close>

lemma load_symbol_weights_Raises [simp]:
  "load_symbol_weights sf (Raises e) = Inr DEFAULT_WEIGHTS"
  by (simp add: load_symbol_weights_def)

text \<open>\<open>load_symbol_weights\<close> on a parsed document: the merged table, then the test.\<close>

lemma load_symbol_weights_Parsed:
  "load_symbol_weights sf (Parsed data) =
     (case merged_weights sf data of
        Inl e \<Rightarrow> Inl e
      | Inr merged \<Rightarrow>
          if fle (weight_sum merged) (Finite 0) then Inr DEFAULT_WEIGHTS else Inr merged)"
  by (simp add: load_symbol_weights_def merged_weights_def split: sum.splits pyval.splits)

text \<open>
  A table that \<open>load_symbol_weights\<close> returns and that has no \<open>NaN\<close> weight satisfies
  the invariant.
\<close>

lemma set_update_subset: "set (AList.update k v al) \<subseteq> insert (k, v) (set al)"
  by (induction al) auto

lemma merge_symbols_not_negative:
  "merge_symbols sf items m = Inr t \<Longrightarrow> \<forall>w \<in> snd ` set m. \<not> flt w (Finite 0)
     \<Longrightarrow> \<forall>w \<in> snd ` set t. \<not> flt w (Finite 0)"
proof (induction items arbitrary: m)
  case Nil
  then show ?case by simp
next
  case (Cons entry rest)
  obtain k cfg where e: "entry = (k, cfg)" by (cases entry)
  show ?case
  proof (cases cfg)
    case (PDict c)
    show ?thesis
    proof (cases "py_float sf (raw_weight c)")
      case (Inl err)
      then have "merge_symbols sf rest m = Inr t"
        using Cons.prems(1) unfolding e PDict by (simp split: if_splits)
      then show ?thesis using Cons.IH Cons.prems(2) by blast
    next
      case (Inr w)
      show ?thesis
      proof (cases "flt w (Finite 0)")
        case True
        then have "merge_symbols sf rest m = Inr t"
          using Cons.prems(1) Inr unfolding e PDict by simp
        then show ?thesis using Cons.IH Cons.prems(2) by blast
      next
        case False
        then have run: "merge_symbols sf rest (AList.update k w m) = Inr t"
          using Cons.prems(1) Inr unfolding e PDict by simp
        have "\<forall>v \<in> snd ` set (AList.update k w m). \<not> flt v (Finite 0)"
          using set_update_subset [of k w m] Cons.prems(2) False by auto
        with run show ?thesis by (rule Cons.IH)
      qed
    qed
  qed (use Cons in \<open>auto simp: e\<close>)
qed

lemma merge_symbols_nonempty:
  "merge_symbols sf items m = Inr t \<Longrightarrow> m \<noteq> [] \<Longrightarrow> t \<noteq> []"
proof (induction items arbitrary: m)
  case Nil
  then show ?case by simp
next
  case (Cons entry rest)
  obtain k cfg where e: "entry = (k, cfg)" by (cases entry)
  show ?case
    using Cons.prems Cons.IH [of m] Cons.IH [of "AList.update k _ m"]
    unfolding e
    by (auto split: pyval.splits sum.splits if_splits)
qed

lemma load_symbol_weights_Inr:
  "load_symbol_weights sf src = Inr t \<Longrightarrow>
     t = DEFAULT_WEIGHTS \<or>
     (\<exists>items. merge_symbols sf items DEFAULT_WEIGHTS = Inr t \<and> \<not> fle (weight_sum t) (Finite 0))"
  by (auto simp: load_symbol_weights_def split: file_read.splits sum.splits pyval.splits if_splits)

lemma load_symbol_weights_nonempty:
  "load_symbol_weights sf src = Inr t \<Longrightarrow> t \<noteq> []"
  using load_symbol_weights_Inr [of sf src t] merge_symbols_nonempty [of sf _ DEFAULT_WEIGHTS t]
  by (auto simp: DEFAULT_WEIGHTS_def)

lemma weights_invariant_without_nan:
  assumes "load_symbol_weights sf src = Inr t" and "NaN \<notin> snd ` set t"
  shows "weights_invariant t"
proof -
  from load_symbol_weights_Inr [OF assms(1)] show ?thesis
  proof
    assume "t = DEFAULT_WEIGHTS"
    then show ?thesis by (simp add: weights_invariant_DEFAULT_WEIGHTS)
  next
    assume "\<exists>items. merge_symbols sf items DEFAULT_WEIGHTS = Inr t \<and> \<not> fle (weight_sum t) (Finite 0)"
    then obtain items where mg: "merge_symbols sf items DEFAULT_WEIGHTS = Inr t"
      and pos: "\<not> fle (weight_sum t) (Finite 0)" by blast
    have "\<forall>w \<in> snd ` set DEFAULT_WEIGHTS. \<not> flt w (Finite 0)"
      by (simp add: DEFAULT_WEIGHTS_def)
    with mg have "\<forall>w \<in> snd ` set t. \<not> flt w (Finite 0)"
      by (rule merge_symbols_not_negative)
    then have nn: "\<forall>w \<in> set (map snd t). fle (Finite 0) w"
      using assms(2) by (force simp: fle_zero_iff)
    have "fle (Finite 0) (weight_sum t)"
      unfolding weight_sum_def using nn by (intro fle_zero_foldl) (simp_all add: fle_def)
    then have "flt (Finite 0) (weight_sum t)" using pos by (rule flt_zero_if)
    then show ?thesis using nn by (simp add: weights_invariant_def list_all_iff)
  qed
qed

text \<open>
  C4. Claimed: whenever \<open>load_symbol_weights\<close> returns, every weight of the table is a
  number that is not negative and the total is positive. The code does otherwise for a
  weight that is \<open>NaN\<close> (the literal \<open>NaN\<close>, which the parser accepts, or the string
  \<open>"nan"\<close>): \<open>w < 0\<close> is false, so the entry is merged, and \<open>sum <= 0\<close> is false, so the
  merged table is returned.
\<close>

theorem nan_weight_breaks_invariant:
  "load_symbol_weights str_float
     (Parsed (PDict [(''symbols'', PDict [(''coin_1'', PDict [(''weight'', PFloat NaN)])])]))
     = Inr (AList.update ''coin_1'' NaN DEFAULT_WEIGHTS)
   \<and> \<not> weights_invariant (AList.update ''coin_1'' NaN DEFAULT_WEIGHTS)"
  by (simp add: load_symbol_weights_def raw_weight_def DEFAULT_WEIGHTS_def weight_sum_def
        fle_def weights_invariant_def)

text \<open>With that table \<open>random.choices\<close> raises: the total is not finite.\<close>

lemma nan_weight_generation_raises:
  "generate_weighted_strip str_float
     (Parsed (PDict [(''symbols'', PDict [(''coin_1'', PDict [(''weight'', PFloat NaN)])])]))
     len bias (PFloat (Finite 1)) u c = Inl ValueError"
  by (simp add: load_symbol_weights_def raw_weight_def DEFAULT_WEIGHTS_def weight_sum_def
        fle_def isfinite_def generate_weighted_strip_def normalize_multiplier_def
        apply_multiplier_def random_choices_def)

section \<open>Sampling\<close>

lemma bisect_bounds: "lo \<le> hi \<Longrightarrow> lo \<le> bisect a x lo hi \<and> bisect a x lo hi \<le> hi"
proof (induction a x lo hi rule: bisect.induct)
  case (1 a x lo hi)
  show ?case
  proof (cases "lo < hi")
    case False
    then show ?thesis using "1.prems" by (simp add: bisect.simps)
  next
    case True
    let ?mid = "(lo + hi) div 2"
    have m: "lo \<le> ?mid" "?mid < hi" using True by auto
    show ?thesis
    proof (cases "flt x (a ! ?mid)")
      case left: True
      then have "bisect a x lo hi = bisect a x lo ?mid"
        using True by (subst bisect.simps) simp
      moreover have "lo \<le> bisect a x lo ?mid \<and> bisect a x lo ?mid \<le> ?mid"
        using "1.IH"(1) [OF True left] m by simp
      ultimately show ?thesis using m by simp
    next
      case right: False
      then have "bisect a x lo hi = bisect a x (?mid + 1) hi"
        using True by (subst bisect.simps) simp
      moreover have "?mid + 1 \<le> bisect a x (?mid + 1) hi \<and> bisect a x (?mid + 1) hi \<le> hi"
        using "1.IH"(2) [OF True right] m by simp
      ultimately show ?thesis using m by simp
    qed
  qed
qed

lemma length_accumulate_from [simp]: "length (accumulate_from acc ws) = length ws"
  by (induction ws arbitrary: acc) simp_all

lemma length_accumulate [simp]: "length (accumulate ws) = length ws"
  by (cases ws) simp_all

lemma accumulate_Nil_iff [simp]: "accumulate ws = [] \<longleftrightarrow> ws = []"
  by (cases ws) simp_all

text \<open>
  When the total that \<open>random.choices\<close> computes is a positive number, it returns \<open>k\<close>
  members of the population.
\<close>

lemma random_choices_returns:
  assumes "ws \<noteq> []" and "length pop = length ws"
    and "flt (Finite 0) (fadd (last (accumulate ws)) (Finite 0))"
    and "isfinite (fadd (last (accumulate ws)) (Finite 0))"
  shows "\<exists>strip. random_choices pop ws k u = Inr strip \<and>
           length strip = nat k \<and> set strip \<subseteq> set pop"
proof -
  let ?cum = "accumulate ws"
  let ?total = "fadd (last ?cum) (Finite 0)"
  let ?strip = "map (\<lambda>i. pop ! bisect ?cum (fmul (Finite (u i)) ?total) 0 (length pop - 1))
                     [0 ..< nat k]"
  have "\<not> fle ?total (Finite 0)" using assms(3) by (rule flt_zero_not_fle)
  then have "random_choices pop ws k u = Inr ?strip"
    using assms(1,2,4) by (simp add: random_choices_def Let_def)
  moreover have "set ?strip \<subseteq> set pop"
  proof
    fix x assume "x \<in> set ?strip"
    then obtain i where x: "x = pop ! bisect ?cum (fmul (Finite (u i)) ?total) 0 (length pop - 1)"
      by auto
    have "bisect ?cum (fmul (Finite (u i)) ?total) 0 (length pop - 1) \<le> length pop - 1"
      using bisect_bounds [of 0 "length pop - 1"] by simp
    moreover have "0 < length pop" using assms(1,2) by simp
    ultimately have "bisect ?cum (fmul (Finite (u i)) ?total) 0 (length pop - 1) < length pop"
      by linarith
    then show "x \<in> set pop" unfolding x by (rule nth_mem)
  qed
  ultimately show ?thesis by simp
qed

lemma keys_scale_weight [simp]: "map fst (scale_weight k bm t) = map fst t"
proof (cases "map_of t k")
  case None
  then show ?thesis by (simp add: scale_weight_def)
next
  case (Some w)
  then have "k \<in> fst ` set t" by (metis domI dom_map_of_conv_image_fst)
  then show ?thesis using Some by (simp add: scale_weight_def AList.update_keys)
qed

lemma keys_apply_multiplier [simp]: "map fst (apply_multiplier bm t) = map fst t"
  by (simp add: apply_multiplier_def)

lemma map_of_scale_weight:
  "map_of (scale_weight k bm t) k' =
     (if k' = k then map_option (\<lambda>w. fmul w bm) (map_of t k) else map_of t k')"
  by (simp add: scale_weight_def AList.update_conv' split: option.splits)

text \<open>
  A call with no bias list returns \<open>L\<close> keys of the table whenever the total that
  \<open>random.choices\<close> computes for the adjusted table is a positive number.
\<close>

lemma generation_returns_keys:
  assumes "load_symbol_weights sf src = Inr loaded"
    and "normalize_multiplier sf bmv = Inr bm"
    and "flt (Finite 0) (fadd (last (accumulate (map snd (apply_multiplier bm loaded)))) (Finite 0))"
    and "isfinite (fadd (last (accumulate (map snd (apply_multiplier bm loaded)))) (Finite 0))"
    and "0 \<le> L"
  shows "\<exists>strip. generate_weighted_strip sf src L None bmv u c = Inr strip \<and>
           int (length strip) = L \<and> set strip \<subseteq> fst ` set loaded"
proof -
  let ?t = "apply_multiplier bm loaded"
  have "loaded \<noteq> []" using assms(1) by (rule load_symbol_weights_nonempty)
  then have "map fst ?t \<noteq> []" by (simp add: keys_apply_multiplier)
  then have ne: "map snd ?t \<noteq> []" by (simp only: map_is_Nil_conv) simp
  have len: "length (map fst ?t) = length (map snd ?t)" by (simp only: length_map)
  from random_choices_returns [OF ne len assms(3,4), of L u]
  obtain strip where s:
    "random_choices (map fst ?t) (map snd ?t) L u = Inr strip"
    "length strip = nat L" "set strip \<subseteq> set (map fst ?t)"
    by blast
  have "generate_weighted_strip sf src L None bmv u c = Inr strip"
    unfolding generate_weighted_strip_Inr using assms(1,2) s(1) by (simp add: rigging_def)
  then show ?thesis using s assms(5) by auto
qed

text \<open>
  A multiplier that takes the bomb weights beyond the largest double makes them infinite,
  and an infinite weight in the file stays in the table: the total is infinite either way.
\<close>

lemma overflowing_multiplier_raises:
  assumes "double_overflow \<le> 5 * b"
  shows "generate_weighted_strip sf (Raises FileNotFoundError) len None (PFloat (Finite b)) u c
           = Inl ValueError"
proof -
  have pos: "0 < double_overflow" by (simp add: double_overflow_def)
  have b: "0 < b" "b \<noteq> 1" using assms pos by (auto simp: double_overflow_def)
  have "double_overflow \<le> 15 * b" using assms b by simp
  then have m: "fmul (Finite 15) (Finite b) = PosInf" "fmul (Finite 5) (Finite b) = PosInf"
    using assms by (simp_all add: round_double_overflow)
  have nm: "normalize_multiplier sf (PFloat (Finite b)) = Inr (Finite b)"
    using b by (simp add: normalize_multiplier_def)
  show ?thesis
    using b m
    by (simp add: generate_weighted_strip_def nm apply_multiplier_def scale_weight_def
          DEFAULT_WEIGHTS_def random_choices_def round_double_small fle_def isfinite_def)
qed

lemma infinite_weight_generation_raises:
  "load_symbol_weights sf
     (Parsed (PDict [(''symbols'', PDict [(''coin_1'', PDict [(''weight'', PFloat PosInf)])])]))
     = Inr (AList.update ''coin_1'' PosInf DEFAULT_WEIGHTS)
   \<and> weight_sum (AList.update ''coin_1'' PosInf DEFAULT_WEIGHTS) = PosInf
   \<and> generate_weighted_strip sf
     (Parsed (PDict [(''symbols'', PDict [(''coin_1'', PDict [(''weight'', PFloat PosInf)])])]))
     len None (PFloat (Finite 1)) u c = Inl ValueError"
  by (simp add: load_symbol_weights_def raw_weight_def DEFAULT_WEIGHTS_def weight_sum_def
        fle_def isfinite_def generate_weighted_strip_def normalize_multiplier_def
        apply_multiplier_def random_choices_def)

text \<open>
  C5. Claimed: for every weight table with positive total weight, a call with no bias
  list returns exactly \<open>L\<close> symbols, each a key of the table. That holds when the total
  that \<open>random.choices\<close> computes for the table after the bomb adjustment is a positive
  number (lemma \<open>generation_returns_keys\<close>). The code does otherwise when the adjustment
  takes a positive total to zero or beyond every double: \<open>random.choices\<close> raises
  \<open>ValueError\<close> with a table whose only positive weights are those of the two bombs
  (total 20) and the multiplier 0, and with the default table (total 95) and the
  multiplier \<open>2^1023\<close>.
\<close>

theorem positive_total_generation_raises:
  "load_symbol_weights (\<lambda>s. None)
     (Parsed (PDict [(''symbols'', PDict
        [(''coin_1'', PDict [(''weight'', PInt 0)]),
         (''coin_stack'', PDict [(''weight'', PInt 0)]),
         (''coin_pile'', PDict [(''weight'', PInt 0)]),
         (''gem_1'', PDict [(''weight'', PInt 0)]),
         (''gem_many'', PDict [(''weight'', PInt 0)]),
         (''card_item'', PDict [(''weight'', PInt 0)]),
         (''random_item'', PDict [(''weight'', PInt 0)])])]))
     = Inr [(''coin_1'', Finite 0), (''coin_stack'', Finite 0), (''coin_pile'', Finite 0),
            (''gem_1'', Finite 0), (''gem_many'', Finite 0), (''bomb_1'', Finite 15),
            (''bomb_atom'', Finite 5), (''card_item'', Finite 0), (''random_item'', Finite 0)]
   \<and> weight_sum [(''coin_1'', Finite 0), (''coin_stack'', Finite 0), (''coin_pile'', Finite 0),
            (''gem_1'', Finite 0), (''gem_many'', Finite 0), (''bomb_1'', Finite 15),
            (''bomb_atom'', Finite 5), (''card_item'', Finite 0), (''random_item'', Finite 0)]
       = Finite 20
   \<and> generate_weighted_strip (\<lambda>s. None)
     (Parsed (PDict [(''symbols'', PDict
        [(''coin_1'', PDict [(''weight'', PInt 0)]),
         (''coin_stack'', PDict [(''weight'', PInt 0)]),
         (''coin_pile'', PDict [(''weight'', PInt 0)]),
         (''gem_1'', PDict [(''weight'', PInt 0)]),
         (''gem_many'', PDict [(''weight'', PInt 0)]),
         (''card_item'', PDict [(''weight'', PInt 0)]),
         (''random_item'', PDict [(''weight'', PInt 0)])])]))
     6 None (PFloat (Finite 0)) (\<lambda>i. 1 / 2) (\<lambda>j. 0)
       = Inl ValueError
   \<and> weight_sum DEFAULT_WEIGHTS = Finite 95
   \<and> generate_weighted_strip (\<lambda>s. None) (Raises FileNotFoundError)
     6 None (PFloat (Finite (2 ^ 1023))) (\<lambda>i. 1 / 2) (\<lambda>j. 0)
       = Inl ValueError"
proof -
  have zero: "load_symbol_weights (\<lambda>s. None)
     (Parsed (PDict [(''symbols'', PDict
        [(''coin_1'', PDict [(''weight'', PInt 0)]),
         (''coin_stack'', PDict [(''weight'', PInt 0)]),
         (''coin_pile'', PDict [(''weight'', PInt 0)]),
         (''gem_1'', PDict [(''weight'', PInt 0)]),
         (''gem_many'', PDict [(''weight'', PInt 0)]),
         (''card_item'', PDict [(''weight'', PInt 0)]),
         (''random_item'', PDict [(''weight'', PInt 0)])])]))
     = Inr [(''coin_1'', Finite 0), (''coin_stack'', Finite 0), (''coin_pile'', Finite 0),
            (''gem_1'', Finite 0), (''gem_many'', Finite 0), (''bomb_1'', Finite 15),
            (''bomb_atom'', Finite 5), (''card_item'', Finite 0), (''random_item'', Finite 0)]
   \<and> weight_sum [(''coin_1'', Finite 0), (''coin_stack'', Finite 0), (''coin_pile'', Finite 0),
            (''gem_1'', Finite 0), (''gem_many'', Finite 0), (''bomb_1'', Finite 15),
            (''bomb_atom'', Finite 5), (''card_item'', Finite 0), (''random_item'', Finite 0)]
       = Finite 20
   \<and> generate_weighted_strip (\<lambda>s. None)
     (Parsed (PDict [(''symbols'', PDict
        [(''coin_1'', PDict [(''weight'', PInt 0)]),
         (''coin_stack'', PDict [(''weight'', PInt 0)]),
         (''coin_pile'', PDict [(''weight'', PInt 0)]),
         (''gem_1'', PDict [(''weight'', PInt 0)]),
         (''gem_many'', PDict [(''weight'', PInt 0)]),
         (''card_item'', PDict [(''weight'', PInt 0)]),
         (''random_item'', PDict [(''weight'', PInt 0)])])]))
     6 None (PFloat (Finite 0)) (\<lambda>i. 1 / 2) (\<lambda>j. 0)
       = Inl ValueError"
    by code_simp
  have "double_overflow \<le> 5 * 2 ^ 1023"
    by (simp add: double_overflow_eq)
  then have "generate_weighted_strip (\<lambda>s. None) (Raises FileNotFoundError)
     6 None (PFloat (Finite (2 ^ 1023))) (\<lambda>i. 1 / 2) (\<lambda>j. 0) = Inl ValueError"
    by (rule overflowing_multiplier_raises)
  then show ?thesis using zero weight_sum_DEFAULT_WEIGHTS by simp
qed

section \<open>The bomb multiplier\<close>

text \<open>
  A multiplier that \<open>float\<close> rejects with \<open>TypeError\<close> or \<open>ValueError\<close> or that is below
  zero becomes \<open>1.0\<close>, and with \<open>1.0\<close> the table is unchanged. A multiplier that is a
  number \<open>b \<ge> 0\<close> other than \<open>1.0\<close> is kept: the table has the same keys in the same
  order, the weights of \<open>bomb_1\<close> and \<open>bomb_atom\<close>, where present, are multiplied by
  \<open>b\<close>, and every other weight is the same.
\<close>

lemma bomb_multiplier_cases:
  "(py_float sf x = Inl TypeError \<or> py_float sf x = Inl ValueError
      \<or> (\<exists>b. py_float sf x = Inr b \<and> flt b (Finite 0))
     \<longrightarrow> normalize_multiplier sf x = Inr (Finite 1) \<and> apply_multiplier (Finite 1) t = t)
   \<and> (py_float sf y = Inr b \<and> fle (Finite 0) b \<and> \<not> feq b (Finite 1)
     \<longrightarrow> normalize_multiplier sf y = Inr b
       \<and> map fst (apply_multiplier b t) = map fst t
       \<and> (\<forall>k. map_of (apply_multiplier b t) k =
                (if k = ''bomb_1'' \<or> k = ''bomb_atom''
                 then map_option (\<lambda>w. fmul w b) (map_of t k) else map_of t k)))"
proof (rule conjI)
  show "py_float sf x = Inl TypeError \<or> py_float sf x = Inl ValueError
      \<or> (\<exists>b. py_float sf x = Inr b \<and> flt b (Finite 0))
     \<longrightarrow> normalize_multiplier sf x = Inr (Finite 1) \<and> apply_multiplier (Finite 1) t = t"
    by (auto simp: normalize_multiplier_def apply_multiplier_def)
next
  show "py_float sf y = Inr b \<and> fle (Finite 0) b \<and> \<not> feq b (Finite 1)
     \<longrightarrow> normalize_multiplier sf y = Inr b
       \<and> map fst (apply_multiplier b t) = map fst t
       \<and> (\<forall>k. map_of (apply_multiplier b t) k =
                (if k = ''bomb_1'' \<or> k = ''bomb_atom''
                 then map_option (\<lambda>w. fmul w b) (map_of t k) else map_of t k))"
  proof (intro impI, elim conjE)
    assume f: "py_float sf y = Inr b" and nn: "fle (Finite 0) b" and ne: "\<not> feq b (Finite 1)"
    have "\<not> flt b (Finite 0)" using nn by (cases b) (auto simp: fle_def)
    then have "normalize_multiplier sf y = Inr b"
      using f by (simp add: normalize_multiplier_def)
    moreover have "\<forall>k. map_of (apply_multiplier b t) k =
                (if k = ''bomb_1'' \<or> k = ''bomb_atom''
                 then map_option (\<lambda>w. fmul w b) (map_of t k) else map_of t k)"
      using ne by (simp add: apply_multiplier_def map_of_scale_weight)
    ultimately show "normalize_multiplier sf y = Inr b
       \<and> map fst (apply_multiplier b t) = map fst t
       \<and> (\<forall>k. map_of (apply_multiplier b t) k =
                (if k = ''bomb_1'' \<or> k = ''bomb_atom''
                 then map_option (\<lambda>w. fmul w b) (map_of t k) else map_of t k))"
      by simp
  qed
qed

text \<open>
  C6. Claimed: a multiplier that is not numeric or is negative becomes \<open>1.0\<close> and changes
  no weight; a valid non-negative one other than \<open>1.0\<close> multiplies the weights of the two
  bomb symbols and no other. Lemma \<open>bomb_multiplier_cases\<close> gives this for a value that
  \<open>float\<close> rejects, for a value below zero and for a number \<open>b \<ge> 0\<close>. The code does
  otherwise for \<open>NaN\<close>, the float that is not a number: \<open>bm < 0\<close> is false and
  \<open>bm != 1.0\<close> is true, so \<open>NaN\<close> is kept, both bomb weights become \<open>NaN\<close> and
  \<open>random.choices\<close> raises \<open>ValueError\<close>.
\<close>

theorem nan_multiplier_not_normalized:
  "normalize_multiplier str_float (PFloat NaN) = Inr NaN
   \<and> map_of (apply_multiplier NaN DEFAULT_WEIGHTS) ''bomb_1'' = Some NaN
   \<and> map_of (apply_multiplier NaN DEFAULT_WEIGHTS) ''bomb_atom'' = Some NaN
   \<and> generate_weighted_strip str_float (Raises FileNotFoundError) len bias (PFloat NaN) u c
       = Inl ValueError"
  by (simp add: generate_weighted_strip_def normalize_multiplier_def apply_multiplier_def
        scale_weight_def DEFAULT_WEIGHTS_def random_choices_def round_double_small fle_def
        isfinite_def)

section \<open>Malformed weight sources\<close>

text \<open>Generation depends on the source only through the loaded table.\<close>

lemma generate_weighted_strip_cong:
  "load_symbol_weights sf src = load_symbol_weights sf src' \<Longrightarrow>
   generate_weighted_strip sf src L bias bmv u c = generate_weighted_strip sf src' L bias bmv u c"
  by (simp add: generate_weighted_strip_def)

lemma foldl_fadd_zeros:
  "list_all (\<lambda>w. w = Finite 0) ws \<Longrightarrow> foldl fadd (Finite 0) ws = Finite 0"
  by (induction ws) simp_all

text \<open>A merged table whose total is not \<open>\<le> 0\<close> is what \<open>load_symbol_weights\<close> returns.\<close>

lemma load_symbol_weights_returns_merged:
  "merged_weights sf doc = Inr merged \<Longrightarrow> \<not> fle (weight_sum merged) (Finite 0) \<Longrightarrow>
   load_symbol_weights sf (Parsed doc) = Inr merged"
  by (simp add: load_symbol_weights_Parsed)

text \<open>
  C2, as claimed: a document whose weights are all zero makes \<open>load_symbol_weights\<close>
  return the default table. This fails for a document that lists only some symbols:
  \<open>{"symbols": {"coin_1": {"weight": 0}}}\<close> has no weight other than zero, and the
  function returns the defaults with \<open>coin_1\<close> at zero, so that a draw which gives
  \<open>coin_1\<close> with the default table gives \<open>coin_stack\<close>.
\<close>

theorem partial_zero_document_counterexample:
  "list_all (\<lambda>entry. zero_entry (\<lambda>s. None) (snd entry)) [(''coin_1'', PDict [(''weight'', PInt 0)])]
   \<and> load_symbol_weights (\<lambda>s. None)
        (Parsed (PDict [(''symbols'', PDict [(''coin_1'', PDict [(''weight'', PInt 0)])])]))
       = Inr (AList.update ''coin_1'' (Finite 0) DEFAULT_WEIGHTS)
   \<and> AList.update ''coin_1'' (Finite 0) DEFAULT_WEIGHTS \<noteq> DEFAULT_WEIGHTS
   \<and> generate_weighted_strip (\<lambda>s. None)
        (Parsed (PDict [(''symbols'', PDict [(''coin_1'', PDict [(''weight'', PInt 0)])])]))
        3 None (PFloat (Finite 1)) (\<lambda>i. 0) (\<lambda>j. 0)
       = Inr [''coin_stack'', ''coin_stack'', ''coin_stack'']
   \<and> generate_weighted_strip (\<lambda>s. None) (Raises FileNotFoundError)
        3 None (PFloat (Finite 1)) (\<lambda>i. 0) (\<lambda>j. 0)
       = Inr [''coin_1'', ''coin_1'', ''coin_1'']"
  by code_simp

text \<open>
  C2, amended. When \<open>open\<close> or \<open>json.load\<close> raises (a document that is not parseable
  JSON among the cases), or when every weight of the table that the document gives once
  merged over the defaults is zero, \<open>load_symbol_weights\<close> raises nothing and returns
  the default table, and \<open>generate_weighted_strip\<close> does what it does when there is no
  file.
\<close>

theorem malformed_source_falls_back:
  assumes "(\<exists>e. src = Raises e)
         \<or> (\<exists>doc merged. src = Parsed doc \<and> merged_weights sf doc = Inr merged
               \<and> list_all (\<lambda>w. w = Finite 0) (map snd merged))"
  shows "load_symbol_weights sf src = Inr DEFAULT_WEIGHTS
       \<and> generate_weighted_strip sf src L bias bmv u c
           = generate_weighted_strip sf (Raises FileNotFoundError) L bias bmv u c"
proof -
  have "load_symbol_weights sf src = Inr DEFAULT_WEIGHTS"
    using assms
  proof
    assume "\<exists>e. src = Raises e"
    then show ?thesis by auto
  next
    assume "\<exists>doc merged. src = Parsed doc \<and> merged_weights sf doc = Inr merged
               \<and> list_all (\<lambda>w. w = Finite 0) (map snd merged)"
    then obtain doc merged where src: "src = Parsed doc"
      and mg: "merged_weights sf doc = Inr merged"
      and z: "list_all (\<lambda>w. w = Finite 0) (map snd merged)" by blast
    have "weight_sum merged = Finite 0"
      unfolding weight_sum_def using z by (rule foldl_fadd_zeros)
    then show ?thesis using src mg by (simp add: load_symbol_weights_Parsed fle_def)
  qed
  then show ?thesis using generate_weighted_strip_cong [of sf src "Raises FileNotFoundError"]
    by simp
qed

theorem malformed_source_falls_back_witness:
  "load_symbol_weights (\<lambda>s. None) (Raises JSONDecodeError) = Inr DEFAULT_WEIGHTS
   \<and> merged_weights (\<lambda>s. None)
       (PDict [(''symbols'', PDict
          (map (\<lambda>k. (k, PDict [(''weight'', PInt 0)])) (map fst DEFAULT_WEIGHTS)
           @ [(''note'', PStr ''x''), (''spare'', PDict [(''label'', PStr ''coin'')])]))])
       = Inr (map (\<lambda>k. (k, Finite 0)) (map fst DEFAULT_WEIGHTS))
   \<and> list_all (\<lambda>w. w = Finite 0) (map snd (map (\<lambda>k. (k, Finite 0)) (map fst DEFAULT_WEIGHTS)))
   \<and> load_symbol_weights (\<lambda>s. None)
       (Parsed (PDict [(''symbols'', PDict
          (map (\<lambda>k. (k, PDict [(''weight'', PInt 0)])) (map fst DEFAULT_WEIGHTS)
           @ [(''note'', PStr ''x''), (''spare'', PDict [(''label'', PStr ''coin'')])]))]))
       = Inr DEFAULT_WEIGHTS"
proof -
  let ?doc = "PDict [(''symbols'', PDict
          (map (\<lambda>k. (k, PDict [(''weight'', PInt 0)])) (map fst DEFAULT_WEIGHTS)
           @ [(''note'', PStr ''x''), (''spare'', PDict [(''label'', PStr ''coin'')])]))]"
  let ?merged = "map (\<lambda>k. (k, Finite 0)) (map fst DEFAULT_WEIGHTS)"
  have mg: "merged_weights (\<lambda>s. None) ?doc = Inr ?merged"
    by code_simp
  have z: "list_all (\<lambda>w. w = Finite 0) (map snd ?merged)"
    by code_simp
  have "load_symbol_weights (\<lambda>s. None) (Raises JSONDecodeError) = Inr DEFAULT_WEIGHTS"
    using malformed_source_falls_back [of "Raises JSONDecodeError" "\<lambda>s. None"] by blast
  moreover have "load_symbol_weights (\<lambda>s. None) (Parsed ?doc) = Inr DEFAULT_WEIGHTS"
    using malformed_source_falls_back [of "Parsed ?doc" "\<lambda>s. None"] mg z by blast
  ultimately show ?thesis using mg z by blast
qed

section \<open>Objects that exist before a call\<close>

lemma take_dict_setitem:
  "n \<le> a \<Longrightarrow> take n (dict_setitem a k v h) = take n h"
  by (simp add: dict_setitem_def)

lemma length_dict_setitem [simp]: "length (dict_setitem a k v h) = length h"
  by (simp add: dict_setitem_def)

lemma merge_symbols_st_frame:
  "n \<le> m \<Longrightarrow> take n (snd (merge_symbols_st sf items m h)) = take n h
     \<and> length (snd (merge_symbols_st sf items m h)) = length h"
proof (induction items arbitrary: h)
  case Nil
  then show ?case by simp
next
  case (Cons entry rest)
  obtain k cfg where e: "entry = (k, cfg)" by (cases entry)
  show ?case
    using Cons.IH [OF Cons.prems, of h] Cons.IH [OF Cons.prems, of "dict_setitem m k _ h"]
      take_dict_setitem [OF Cons.prems]
    unfolding e
    by (auto split: pyval.splits sum.splits)
qed

text \<open>The loop on the store computes what the loop on the table computes.\<close>

lemma merge_symbols_st_refines:
  "m < length h \<Longrightarrow>
   (case merge_symbols sf items (h ! m) of
      Inl e \<Rightarrow> fst (merge_symbols_st sf items m h) = Some e
    | Inr t \<Rightarrow> merge_symbols_st sf items m h = (None, h[m := t]))"
proof (induction items arbitrary: h)
  case Nil
  then show ?case by simp
next
  case (Cons entry rest)
  obtain k cfg where e: "entry = (k, cfg)" by (cases entry)
  note skip = Cons.IH [OF Cons.prems]
  show ?case
  proof (cases cfg)
    case (PDict c)
    show ?thesis
    proof (cases "py_float sf (raw_weight c)")
      case (Inl err)
      then show ?thesis unfolding e PDict using skip by (auto split: sum.splits)
    next
      case (Inr w)
      show ?thesis
      proof (cases "flt w (Finite 0)")
        case True
        then show ?thesis unfolding e PDict using skip Inr by (auto split: sum.splits)
      next
        case False
        let ?h = "dict_setitem m k w h"
        have len: "m < length ?h" using Cons.prems by simp
        have obj: "?h ! m = AList.update k w (h ! m)"
          using Cons.prems by (simp add: dict_setitem_def)
        have over: "?h[m := t] = h[m := t]" for t
          by (simp add: dict_setitem_def)
        have "case merge_symbols sf rest (AList.update k w (h ! m)) of
                Inl e \<Rightarrow> fst (merge_symbols_st sf rest m ?h) = Some e
              | Inr t \<Rightarrow> merge_symbols_st sf rest m ?h = (None, h[m := t])"
          using Cons.IH [OF len] unfolding obj over .
        then show ?thesis unfolding e PDict using Inr False by (auto split: sum.splits)
      qed
    qed
  qed (use skip in \<open>auto simp: e split: sum.splits\<close>)
qed

lemma load_symbol_weights_st_frame:
  "take (length h) (snd (load_symbol_weights_st sf src h)) = h
   \<and> (\<forall>a. fst (load_symbol_weights_st sf src h) = Inr a \<longrightarrow>
          length h \<le> a \<and> a < length (snd (load_symbol_weights_st sf src h)))"
proof (cases src)
  case (Raises e)
  then show ?thesis by (simp add: load_symbol_weights_st_def dict_copy_def)
next
  case (Parsed data)
  show ?thesis
  proof (cases "py_get (if truthy data then data else PDict []) ''symbols'' (PDict [])")
    case (Inl e)
    then show ?thesis using Parsed by (simp add: load_symbol_weights_st_def)
  next
    case (Inr symbols)
    show ?thesis
    proof (cases symbols)
      case (PDict items)
      let ?h1 = "h @ [h ! default_ref]"
      obtain r h2 where run: "merge_symbols_st sf items (length h) ?h1 = (r, h2)"
        by (cases "merge_symbols_st sf items (length h) ?h1")
      have "take (length h) h2 = take (length h) ?h1 \<and> length h2 = length ?h1"
        using merge_symbols_st_frame [of "length h" "length h" sf items ?h1] run by simp
      then have h2: "take (length h) h2 = h" "length h2 = Suc (length h)"
        by simp_all
      then have "take (length h) (h2 @ [x]) = h" for x
        by simp
      then show ?thesis using Parsed Inr PDict run h2
        by (cases r) (simp_all add: load_symbol_weights_st_def dict_copy_def Let_def)
    qed (use Parsed Inr in \<open>simp_all add: load_symbol_weights_st_def dict_copy_def Let_def\<close>)
  qed
qed

lemma load_symbol_weights_st_refines:
  assumes "default_ref < length h" and "h ! default_ref = DEFAULT_WEIGHTS"
  shows "case load_symbol_weights sf src of
           Inl e \<Rightarrow> fst (load_symbol_weights_st sf src h) = Inl e
         | Inr t \<Rightarrow>
             (\<exists>a. fst (load_symbol_weights_st sf src h) = Inr a \<and>
                  snd (load_symbol_weights_st sf src h) ! a = t)"
proof (cases src)
  case (Raises e)
  then show ?thesis using assms
    by (simp add: load_symbol_weights_st_def load_symbol_weights_def dict_copy_def)
next
  case (Parsed data)
  show ?thesis
  proof (cases "py_get (if truthy data then data else PDict []) ''symbols'' (PDict [])")
    case (Inl e)
    then show ?thesis using Parsed
      by (simp add: load_symbol_weights_st_def load_symbol_weights_def)
  next
    case (Inr symbols)
    show ?thesis
    proof (cases symbols)
      case (PDict items)
      let ?h1 = "h @ [h ! default_ref]"
      have m: "length h < length ?h1" by simp
      have obj: "?h1 ! length h = DEFAULT_WEIGHTS" using assms by simp
      note loop = merge_symbols_st_refines [OF m, of sf items, unfolded obj]
      show ?thesis
      proof (cases "merge_symbols sf items DEFAULT_WEIGHTS")
        case (Inl e)
        then have "fst (merge_symbols_st sf items (length h) ?h1) = Some e"
          using loop by simp
        then show ?thesis using Parsed Inr PDict Inl
          by (cases "merge_symbols_st sf items (length h) ?h1")
             (simp add: load_symbol_weights_st_def load_symbol_weights_def dict_copy_def Let_def)
      next
        case merged: (Inr t)
        then have run: "merge_symbols_st sf items (length h) ?h1 = (None, ?h1[length h := t])"
          using loop by simp
        have dflt: "(?h1[length h := t]) ! default_ref = DEFAULT_WEIGHTS"
          using assms by (simp add: nth_append)
        show ?thesis using Parsed Inr PDict merged run dflt
          by (simp add: load_symbol_weights_st_def load_symbol_weights_def dict_copy_def Let_def
                nth_append)
      qed
    qed (use Parsed Inr in
          \<open>simp_all add: load_symbol_weights_st_def load_symbol_weights_def dict_copy_def Let_def\<close>)
  qed
qed

lemma scale_weight_st_eq:
  "a < length h \<Longrightarrow> scale_weight_st key bm a h = h[a := scale_weight key bm (h ! a)]"
  by (simp add: scale_weight_st_def scale_weight_def dict_setitem_def split: option.splits)

lemma apply_multiplier_st_eq:
  "a < length h \<Longrightarrow> apply_multiplier_st bm a h = h[a := apply_multiplier bm (h ! a)]"
  by (simp add: apply_multiplier_st_def apply_multiplier_def scale_weight_st_eq)

lemma generate_weighted_strip_st_frame:
  "take (length h) (snd (generate_weighted_strip_st sf src L bias bmv u c h)) = h"
proof -
  obtain r h1 where ld: "load_symbol_weights_st sf src h = (r, h1)"
    by (cases "load_symbol_weights_st sf src h")
  have fr: "take (length h) h1 = h"
    and ad: "\<And>a. r = Inr a \<Longrightarrow> length h \<le> a \<and> a < length h1"
    using load_symbol_weights_st_frame [of h sf src] ld by simp_all
  show ?thesis
  proof (cases r)
    case (Inl e)
    then show ?thesis using ld fr by (simp add: generate_weighted_strip_st_def)
  next
    case (Inr a)
    then have a: "length h \<le> a" "a < length h1" using ad by simp_all
    have "take (length h) (apply_multiplier_st bm a h1) = h" for bm
      using a fr by (simp add: apply_multiplier_st_eq)
    then show ?thesis using ld Inr fr
      by (cases "normalize_multiplier sf bmv") (simp_all add: generate_weighted_strip_st_def Let_def)
  qed
qed

lemma generate_weighted_strip_st_refines:
  assumes "default_ref < length h" and "h ! default_ref = DEFAULT_WEIGHTS"
  shows "fst (generate_weighted_strip_st sf src L bias bmv u c h)
           = generate_weighted_strip sf src L bias bmv u c"
proof -
  obtain r h1 where ld: "load_symbol_weights_st sf src h = (r, h1)"
    by (cases "load_symbol_weights_st sf src h")
  note rf = load_symbol_weights_st_refines [OF assms, of sf src, unfolded ld fst_conv snd_conv]
  show ?thesis
  proof (cases "load_symbol_weights sf src")
    case (Inl e)
    then show ?thesis using rf ld
      by (simp add: generate_weighted_strip_st_def generate_weighted_strip_def)
  next
    case (Inr t)
    then obtain a where a: "r = Inr a" "h1 ! a = t" using rf by auto
    have "a < length h1"
      using load_symbol_weights_st_frame [of h sf src] ld a by simp
    then have "apply_multiplier_st bm a h1 ! a = apply_multiplier bm t" for bm
      using a by (simp add: apply_multiplier_st_eq)
    then show ?thesis using ld a Inr
      by (cases "normalize_multiplier sf bmv")
         (simp_all add: generate_weighted_strip_st_def generate_weighted_strip_def Let_def)
  qed
qed

text \<open>
  C9. In a store where \<open>DEFAULT_WEIGHTS\<close> holds the default table, a call of
  \<open>load_symbol_weights\<close> or of \<open>generate_weighted_strip\<close>, whether it returns or raises,
  leaves every object that existed before the call as it was (the store before the call
  is a prefix of the store after it: the call only allocates, and writes only into what
  it allocated); \<open>DEFAULT_WEIGHTS\<close> is the same table afterwards, and a later call
  returns what it would have returned before.
\<close>

theorem defaults_are_not_mutated:
  assumes "default_ref < length h" and "h ! default_ref = DEFAULT_WEIGHTS"
  shows "take (length h) (snd (load_symbol_weights_st sf src h)) = h
       \<and> take (length h) (snd (generate_weighted_strip_st sf src L bias bmv u c h)) = h
       \<and> snd (load_symbol_weights_st sf src h) ! default_ref = DEFAULT_WEIGHTS
       \<and> snd (generate_weighted_strip_st sf src L bias bmv u c h) ! default_ref = DEFAULT_WEIGHTS
       \<and> fst (generate_weighted_strip_st sf' src' L' bias' bmv' u' c'
                (snd (generate_weighted_strip_st sf src L bias bmv u c h)))
           = fst (generate_weighted_strip_st sf' src' L' bias' bmv' u' c' h)"
proof -
  let ?h1 = "snd (load_symbol_weights_st sf src h)"
  let ?h2 = "snd (generate_weighted_strip_st sf src L bias bmv u c h)"
  have f1: "take (length h) ?h1 = h"
    using load_symbol_weights_st_frame by blast
  have f2: "take (length h) ?h2 = h"
    by (rule generate_weighted_strip_st_frame)
  have keep: "default_ref < length h' \<and> h' ! default_ref = DEFAULT_WEIGHTS"
    if "take (length h) h' = h" for h'
  proof -
    have "length (take (length h) h') = length h" using that by simp
    then have "length h \<le> length h'" by simp
    moreover have "take (length h) h' ! default_ref = h' ! default_ref"
      using assms(1) by simp
    ultimately show ?thesis using assms that by simp
  qed
  have "fst (generate_weighted_strip_st sf' src' L' bias' bmv' u' c' ?h2)
           = generate_weighted_strip sf' src' L' bias' bmv' u' c'"
    using keep [OF f2] by (intro generate_weighted_strip_st_refines) simp_all
  moreover have "fst (generate_weighted_strip_st sf' src' L' bias' bmv' u' c' h)
           = generate_weighted_strip sf' src' L' bias' bmv' u' c'"
    using assms by (rule generate_weighted_strip_st_refines)
  ultimately show ?thesis using f1 f2 keep by simp
qed

theorem defaults_are_not_mutated_witness:
  "default_ref < length [DEFAULT_WEIGHTS]
   \<and> [DEFAULT_WEIGHTS] ! default_ref = DEFAULT_WEIGHTS
   \<and> snd (generate_weighted_strip_st (\<lambda>s. None) (Raises FileNotFoundError) 3 None
            (PFloat (Finite 2)) (\<lambda>i. 0) (\<lambda>j. 0) [DEFAULT_WEIGHTS]) ! default_ref
       = DEFAULT_WEIGHTS
   \<and> take (length [DEFAULT_WEIGHTS])
        (snd (load_symbol_weights_st (\<lambda>s. None) (Raises FileNotFoundError) [DEFAULT_WEIGHTS]))
       = [DEFAULT_WEIGHTS]"
proof -
  have d: "default_ref < length [DEFAULT_WEIGHTS]"
    by (simp add: default_ref_def)
  have v: "[DEFAULT_WEIGHTS] ! default_ref = DEFAULT_WEIGHTS"
    by (simp add: default_ref_def)
  show ?thesis
    using d v
      defaults_are_not_mutated [OF d v, of "\<lambda>s. None" "Raises FileNotFoundError" 3 None
        "PFloat (Finite 2)" "\<lambda>i. 0" "\<lambda>j. 0"]
    by blast
qed

end
